theory Spec2Isabelle
  imports Main "HOL-Library.Word" "HOL-Library.Multiset"
begin

section \<open>The property ledger contract (LandRegistry.sol)\<close>

text \<open>
  The contract is embedded as explicit state passing. A call takes the transaction
  environment and the storage and returns either an error (the call reverted) or the
  emitted events with the new storage. Solidity mappings are total functions whose
  default is the zero value (a mapping from strings is keyed by the string itself: hash
  collisions are not modelled); \<open>uint256\<close> is a 256-bit word; \<open>address\<close> is a 160-bit
  word.
\<close>

type_synonym uint256 = "256 word"
type_synonym address = "160 word"

datatype PropertyType = RESIDENTIAL | COMMERCIAL | INDUSTRIAL | AGRICULTURAL | FOREST | OTHER

datatype PropertyStatus = ACTIVE | DISPUTED | FROZEN | TRANSFERRED

text \<open>The struct \<open>Property\<close>; the fields \<open>id\<close> and \<open>value\<close> carry a suffix.\<close>

record Property =
  id_f :: uint256
  location :: string
  coordinates :: string
  area :: uint256
  value_f :: uint256
  propertyType :: PropertyType
  status :: PropertyStatus
  registrationDate :: uint256
  lastTransferDate :: uint256
  documentHash :: string
  registrar :: address
  verified :: bool

text \<open>
  The four role constants of the contract and the default admin role of the access-control
  base contract. The source identifies a role by a 32-byte hash; the five hashes are
  taken as distinct.
\<close>

datatype role = DEFAULT_ADMIN_ROLE | ADMIN_ROLE | NOTARY_ROLE | SURVEYOR_ROLE | TAX_AUTHORITY_ROLE

text \<open>The events declared by the contract (events of the base contracts are not recorded).\<close>

datatype event =
    PropertyRegistered uint256 address string uint256 address
  | PropertyTransferred uint256 address address uint256
  | PropertyVerified uint256 address bool
  | PropertyStatusChanged uint256 PropertyStatus PropertyStatus
  | PropertyValueUpdated uint256 uint256 uint256 address

text \<open>One constructor for each revert reason of the contract and of its base contracts.\<close>

datatype error =
    MissingRole role
  | Paused
  | NotPaused
  | InvalidOwnerAddress
  | LocationEmpty
  | AreaZero
  | LocationTaken
  | PropertyDoesNotExist
  | InvalidNewOwnerAddress
  | NotTransferable
  | SameOwner
  | ValueZero
  | MintToZeroAddress
  | TokenAlreadyMinted
  | NonReceiver
  | InvalidTokenId
  | TransferFromIncorrectOwner
  | TransferToZeroAddress
  | URISetOfNonexistentToken
  | ApprovalToCurrentOwner
  | NotOwnerOrApprovedForAll
  | NotOwnerOrApproved
  | ApproveToCaller
  | RenounceNotSelf

text \<open>
  The storage: the state variables of \<open>LandRegistry\<close> followed by those of its base
  contracts (token owners, balances and approvals; token URIs; role members; the pause
  flag).
\<close>

record state =
  propertyIdCounter :: uint256
  properties :: "uint256 \<Rightarrow> Property"
  locationToPropertyId :: "string \<Rightarrow> uint256"
  ownerProperties :: "address \<Rightarrow> uint256 list"
  owners :: "uint256 \<Rightarrow> address"
  balances :: "address \<Rightarrow> uint256"
  tokenApprovals :: "uint256 \<Rightarrow> address"
  operatorApprovals :: "address \<Rightarrow> address \<Rightarrow> bool"
  tokenURIs :: "uint256 \<Rightarrow> string"
  roles :: "role \<Rightarrow> address \<Rightarrow> bool"
  paused :: bool

text \<open>
  The transaction environment: \<open>msg.sender\<close>, \<open>block.timestamp\<close>, and the receiver
  hook. \<open>onERC721Received e to tokenId s\<close> is the external call that the acceptance
  check of a safe mint or a safe transfer makes to the receiver \<open>to\<close>, which finds the
  storage \<open>s\<close> as the registry has written it so far. The result is \<open>None\<close> when the
  receiver refuses the token or reverts; otherwise it is the events and the storage that
  the receiver's own calls into the registry leave behind. The contract applies
  \<open>nonReentrant\<close> nowhere, so nothing stops such calls. An account that is not a
  contract accepts and changes nothing.
\<close>

record env =
  sender :: address
  timestamp :: uint256
  onERC721Received :: "address \<Rightarrow> uint256 \<Rightarrow> state \<Rightarrow> (event list \<times> state) option"

subsection \<open>Base contracts\<close>

text \<open>
  The imported OpenZeppelin base contracts (ERC721, ERC721URIStorage, AccessControl,
  Pausable, Counters) are not part of the sources. The spec names them (a standard
  role-based access-control library, a pausable switch, an ERC721 token); the
  definitions of this subsection follow the 4.x release that the import paths and the
  four-argument transfer hook of the contract select.
\<close>

text \<open>Modelled from the spec: \<open>hasRole\<close> of the access-control base contract, the
  membership test behind the modifier \<open>onlyRole\<close>.\<close>

definition hasRole :: "state \<Rightarrow> role \<Rightarrow> address \<Rightarrow> bool" where
  "hasRole s r a = roles s r a"

text \<open>Modelled from the spec: \<open>getRoleAdmin\<close> of the access-control base contract. No
  role admin is ever set, so every role is administered by the default admin role.\<close>

definition getRoleAdmin :: "state \<Rightarrow> role \<Rightarrow> role" where
  "getRoleAdmin s r = DEFAULT_ADMIN_ROLE"

text \<open>Modelled from the spec: \<open>_exists\<close> of the token base contract. A token exists
  when its owner is not the zero address.\<close>

definition exists_f :: "state \<Rightarrow> uint256 \<Rightarrow> bool" where
  "exists_f s tokenId = (owners s tokenId \<noteq> 0)"

text \<open>Modelled from the spec: \<open>ownerOf\<close> of the token base contract reverts on a token
  that does not exist.\<close>

definition ownerOf :: "state \<Rightarrow> uint256 \<Rightarrow> error + address" where
  "ownerOf s tokenId =
     (if owners s tokenId = 0 then Inl InvalidTokenId else Inr (owners s tokenId))"

text \<open>
  The override \<open>_beforeTokenTransfer\<close> of the contract: the modifier \<open>whenNotPaused\<close>
  around the hook of the base contract, which does nothing for a single token.
\<close>

definition beforeTokenTransfer :: "state \<Rightarrow> error + unit" where
  "beforeTokenTransfer s = (if paused s then Inl Paused else Inr ())"

text \<open>Modelled from the spec: \<open>_mint\<close> of the token base contract. The balance is
  incremented unchecked.\<close>

definition mint :: "address \<Rightarrow> uint256 \<Rightarrow> state \<Rightarrow> error + state" where
  "mint to tokenId s =
     (if to = 0 then Inl MintToZeroAddress
      else if exists_f s tokenId then Inl TokenAlreadyMinted
      else (case beforeTokenTransfer s of
        Inl err \<Rightarrow> Inl err
      | Inr _ \<Rightarrow>
          Inr (s\<lparr>balances := (balances s)(to := balances s to + 1),
                 owners := (owners s)(tokenId := to)\<rparr>)))"

text \<open>Modelled from the spec: \<open>_safeMint\<close> mints, then calls the receiver on the
  storage that holds the new token, and reverts unless the receiver accepts. The events
  and the storage it returns are those the receiver's call leaves.\<close>

definition safeMint ::
  "env \<Rightarrow> address \<Rightarrow> uint256 \<Rightarrow> state \<Rightarrow> error + (event list \<times> state)" where
  "safeMint e to tokenId s =
     (case mint to tokenId s of
        Inl err \<Rightarrow> Inl err
      | Inr s' \<Rightarrow>
          (case onERC721Received e to tokenId s' of
             None \<Rightarrow> Inl NonReceiver
           | Some (evs, s'') \<Rightarrow> Inr (evs, s'')))"

text \<open>Modelled from the spec: \<open>_setTokenURI\<close> of the URI storage extension.\<close>

definition setTokenURI :: "uint256 \<Rightarrow> string \<Rightarrow> state \<Rightarrow> error + state" where
  "setTokenURI tokenId uri s =
     (if \<not> exists_f s tokenId then Inl URISetOfNonexistentToken
      else Inr (s\<lparr>tokenURIs := (tokenURIs s)(tokenId := uri)\<rparr>))"

text \<open>Modelled from the spec: \<open>_transfer\<close> of the token base contract. It clears the
  approval of the token and moves one unit of balance, unchecked.\<close>

definition transfer :: "address \<Rightarrow> address \<Rightarrow> uint256 \<Rightarrow> state \<Rightarrow> error + state" where
  "transfer from to tokenId s =
     (case ownerOf s tokenId of
        Inl err \<Rightarrow> Inl err
      | Inr ow \<Rightarrow>
          (if ow \<noteq> from then Inl TransferFromIncorrectOwner
           else if to = 0 then Inl TransferToZeroAddress
           else (case beforeTokenTransfer s of
             Inl err \<Rightarrow> Inl err
           | Inr _ \<Rightarrow>
              (let s1 = s\<lparr>tokenApprovals := (tokenApprovals s)(tokenId := 0)\<rparr>;
                   s2 = s1\<lparr>balances := (balances s1)(from := balances s1 from - 1)\<rparr>;
                   s3 = s2\<lparr>balances := (balances s2)(to := balances s2 to + 1)\<rparr>
               in Inr (s3\<lparr>owners := (owners s3)(tokenId := to)\<rparr>)))))"

text \<open>Modelled from the spec: \<open>isApprovedForAll\<close> of the token base contract.\<close>

definition isApprovedForAll :: "state \<Rightarrow> address \<Rightarrow> address \<Rightarrow> bool" where
  "isApprovedForAll s ow operator = operatorApprovals s ow operator"

text \<open>Modelled from the spec: the internal \<open>_isApprovedOrOwner\<close> of the token base
  contract; it reverts on a token that does not exist.\<close>

definition isApprovedOrOwner :: "state \<Rightarrow> address \<Rightarrow> uint256 \<Rightarrow> error + bool" where
  "isApprovedOrOwner s spender tokenId =
     (case ownerOf s tokenId of
        Inl err \<Rightarrow> Inl err
      | Inr ow \<Rightarrow>
          Inr (spender = ow \<or> isApprovedForAll s ow spender \<or> tokenApprovals s tokenId = spender))"

text \<open>
  The contract inherits the public entry points \<open>approve\<close>, \<open>setApprovalForAll\<close>,
  \<open>transferFrom\<close> and \<open>safeTransferFrom\<close> of the token base contract without
  overriding them.
\<close>

text \<open>Modelled from the spec: \<open>approve\<close> of the token base contract.\<close>

definition approve :: "env \<Rightarrow> address \<Rightarrow> uint256 \<Rightarrow> state \<Rightarrow> error + (event list \<times> state)" where
  "approve e to tokenId s =
     (case ownerOf s tokenId of
        Inl err \<Rightarrow> Inl err
      | Inr ow \<Rightarrow>
          (if to = ow then Inl ApprovalToCurrentOwner
           else if \<not> (sender e = ow \<or> isApprovedForAll s ow (sender e))
             then Inl NotOwnerOrApprovedForAll
           else Inr ([], s\<lparr>tokenApprovals := (tokenApprovals s)(tokenId := to)\<rparr>)))"

text \<open>Modelled from the spec: \<open>setApprovalForAll\<close> of the token base contract.\<close>

definition setApprovalForAll :: "env \<Rightarrow> address \<Rightarrow> bool \<Rightarrow> state \<Rightarrow> error + (event list \<times> state)" where
  "setApprovalForAll e operator approved s =
     (if sender e = operator then Inl ApproveToCaller
      else Inr ([], s\<lparr>operatorApprovals :=
             (operatorApprovals s)(sender e := (operatorApprovals s (sender e))(operator := approved))\<rparr>))"

text \<open>Modelled from the spec: \<open>transferFrom\<close> of the token base contract. The caller
  must be the owner of the token or approved; the token then moves by \<open>_transfer\<close>.\<close>

definition transferFrom :: "env \<Rightarrow> address \<Rightarrow> address \<Rightarrow> uint256 \<Rightarrow> state \<Rightarrow> error + (event list \<times> state)" where
  "transferFrom e from to tokenId s =
     (case isApprovedOrOwner s (sender e) tokenId of
        Inl err \<Rightarrow> Inl err
      | Inr ok \<Rightarrow>
          (if \<not> ok then Inl NotOwnerOrApproved
           else (case transfer from to tokenId s of
             Inl err \<Rightarrow> Inl err
           | Inr s' \<Rightarrow> Inr ([], s'))))"

text \<open>Modelled from the spec: \<open>safeTransferFrom\<close> of the token base contract, a
  \<open>transferFrom\<close> followed by the call to the receiver on the storage after the
  transfer.\<close>

definition safeTransferFrom :: "env \<Rightarrow> address \<Rightarrow> address \<Rightarrow> uint256 \<Rightarrow> state \<Rightarrow> error + (event list \<times> state)" where
  "safeTransferFrom e from to tokenId s =
     (case isApprovedOrOwner s (sender e) tokenId of
        Inl err \<Rightarrow> Inl err
      | Inr ok \<Rightarrow>
          (if \<not> ok then Inl NotOwnerOrApproved
           else (case transfer from to tokenId s of
             Inl err \<Rightarrow> Inl err
           | Inr s' \<Rightarrow>
               (case onERC721Received e to tokenId s' of
                  None \<Rightarrow> Inl NonReceiver
                | Some (evs, s'') \<Rightarrow> Inr (evs, s'')))))"

text \<open>
  The contract inherits the public entry points \<open>grantRole\<close>, \<open>revokeRole\<close> and
  \<open>renounceRole\<close> of the access-control base contract without overriding them; the
  deployment script calls \<open>grantRole\<close> to appoint the notary, the surveyor and the tax
  authority.
\<close>

text \<open>Modelled from the spec: \<open>grantRole\<close> of the access-control base contract, open
  to the holders of the admin role of the role granted.\<close>

definition grantRole :: "env \<Rightarrow> role \<Rightarrow> address \<Rightarrow> state \<Rightarrow> error + (event list \<times> state)" where
  "grantRole e r account s =
     (if \<not> hasRole s (getRoleAdmin s r) (sender e) then Inl (MissingRole (getRoleAdmin s r))
      else Inr ([], s\<lparr>roles := (roles s)(r := (roles s r)(account := True))\<rparr>))"

text \<open>Modelled from the spec: \<open>revokeRole\<close> of the access-control base contract.\<close>

definition revokeRole :: "env \<Rightarrow> role \<Rightarrow> address \<Rightarrow> state \<Rightarrow> error + (event list \<times> state)" where
  "revokeRole e r account s =
     (if \<not> hasRole s (getRoleAdmin s r) (sender e) then Inl (MissingRole (getRoleAdmin s r))
      else Inr ([], s\<lparr>roles := (roles s)(r := (roles s r)(account := False))\<rparr>))"

text \<open>Modelled from the spec: \<open>renounceRole\<close> of the access-control base contract;
  an account renounces only its own role.\<close>

definition renounceRole :: "env \<Rightarrow> role \<Rightarrow> address \<Rightarrow> state \<Rightarrow> error + (event list \<times> state)" where
  "renounceRole e r account s =
     (if account \<noteq> sender e then Inl RenounceNotSelf
      else Inr ([], s\<lparr>roles := (roles s)(r := (roles s r)(account := False))\<rparr>))"

subsection \<open>The contract\<close>

text \<open>The constructor grants the default admin role and the admin role to the deployer;
  every other state variable starts at its zero value.\<close>

definition zeroProperty :: Property where
  "zeroProperty =
     \<lparr>id_f = 0, location = [], coordinates = [], area = 0, value_f = 0,
      propertyType = RESIDENTIAL, status = ACTIVE, registrationDate = 0,
      lastTransferDate = 0, documentHash = [], registrar = 0, verified = False\<rparr>"

definition constructor :: "address \<Rightarrow> state" where
  "constructor deployer =
     \<lparr>propertyIdCounter = 0,
      properties = (\<lambda>_. zeroProperty),
      locationToPropertyId = (\<lambda>_. 0),
      ownerProperties = (\<lambda>_. []),
      owners = (\<lambda>_. 0),
      balances = (\<lambda>_. 0),
      tokenApprovals = (\<lambda>_. 0),
      operatorApprovals = (\<lambda>_ _. False),
      tokenURIs = (\<lambda>_. []),
      roles = (\<lambda>r a. (r = DEFAULT_ADMIN_ROLE \<or> r = ADMIN_ROLE) \<and> a = deployer),
      paused = False\<rparr>"

text \<open>\<open>registerProperty\<close>: the modifiers \<open>onlyRole(NOTARY_ROLE)\<close> and \<open>whenNotPaused\<close> in
  this order, the four requirements, the counter increment (unchecked in the counter
  library), the safe mint, and the writes. The safe mint calls the receiver before the
  token URI, the property, the location index and the owner's list are written: these
  writes are made on the storage \<open>s2\<close> that the receiver's call returns, and the events
  of that call come before the event of the registration.\<close>

definition registerProperty ::
  "env \<Rightarrow> address \<Rightarrow> string \<Rightarrow> string \<Rightarrow> uint256 \<Rightarrow> uint256 \<Rightarrow> PropertyType \<Rightarrow> string \<Rightarrow> string
     \<Rightarrow> state \<Rightarrow> error + (uint256 \<times> event list \<times> state)" where
  "registerProperty e ow loc coords ar val ptype docHash tokenURI s =
     (if \<not> hasRole s NOTARY_ROLE (sender e) then Inl (MissingRole NOTARY_ROLE)
      else if paused s then Inl Paused
      else if ow = 0 then Inl InvalidOwnerAddress
      else if \<not> (0 < length loc) then Inl LocationEmpty
      else if \<not> (0 < ar) then Inl AreaZero
      else if locationToPropertyId s loc \<noteq> 0 then Inl LocationTaken
      else
        (let s1 = s\<lparr>propertyIdCounter := propertyIdCounter s + 1\<rparr>;
             propertyId = propertyIdCounter s1
         in (case safeMint e ow propertyId s1 of
               Inl err \<Rightarrow> Inl err
             | Inr (evs, s2) \<Rightarrow>
                 (case setTokenURI propertyId tokenURI s2 of
                    Inl err \<Rightarrow> Inl err
                  | Inr s3 \<Rightarrow>
                      (let s4 = s3\<lparr>properties := (properties s3)(propertyId :=
                                  \<lparr>id_f = propertyId, location = loc, coordinates = coords,
                                   area = ar, value_f = val, propertyType = ptype,
                                   status = ACTIVE, registrationDate = timestamp e,
                                   lastTransferDate = timestamp e, documentHash = docHash,
                                   registrar = sender e, verified = False\<rparr>)\<rparr>;
                           s5 = s4\<lparr>locationToPropertyId :=
                                  (locationToPropertyId s4)(loc := propertyId)\<rparr>;
                           s6 = s5\<lparr>ownerProperties :=
                                  (ownerProperties s5)(ow := ownerProperties s5 ow @ [propertyId])\<rparr>
                       in Inr (propertyId,
                               evs @ [PropertyRegistered propertyId ow loc val (sender e)],
                               s6))))))"

text \<open>The loop of \<open>_removePropertyFromOwner\<close>: at the first index that holds the id, the
  last element is copied there, the array is popped, and the loop stops.\<close>

function removeLoop :: "nat \<Rightarrow> uint256 list \<Rightarrow> uint256 \<Rightarrow> uint256 list" where
  "removeLoop i ownerProps propertyId =
     (if i < length ownerProps
      then (if ownerProps ! i = propertyId
            then butlast (ownerProps[i := ownerProps ! (length ownerProps - 1)])
            else removeLoop (i + 1) ownerProps propertyId)
      else ownerProps)"
  by pat_completeness auto
termination
  by (relation "measure (\<lambda>(i, ownerProps, propertyId). length ownerProps - i)") auto

declare removeLoop.simps [simp del]

definition removePropertyFromOwner :: "address \<Rightarrow> uint256 \<Rightarrow> state \<Rightarrow> state" where
  "removePropertyFromOwner ow propertyId s =
     s\<lparr>ownerProperties := (ownerProperties s)(ow := removeLoop 0 (ownerProperties s ow) propertyId)\<rparr>"

text \<open>\<open>transferProperty\<close>. The state \<open>s4\<close> is the one in which the token transfer runs:
  the status is \<open>TRANSFERRED\<close> there.\<close>

definition transferProperty ::
  "env \<Rightarrow> uint256 \<Rightarrow> address \<Rightarrow> uint256 \<Rightarrow> state \<Rightarrow> error + (event list \<times> state)" where
  "transferProperty e propertyId newOwner newValue s =
     (if \<not> hasRole s NOTARY_ROLE (sender e) then Inl (MissingRole NOTARY_ROLE)
      else if paused s then Inl Paused
      else if \<not> exists_f s propertyId then Inl PropertyDoesNotExist
      else if newOwner = 0 then Inl InvalidNewOwnerAddress
      else if status (properties s propertyId) \<noteq> ACTIVE then Inl NotTransferable
      else
        (case ownerOf s propertyId of
           Inl err \<Rightarrow> Inl err
         | Inr currentOwner \<Rightarrow>
             (if currentOwner = newOwner then Inl SameOwner
              else
                (let s1 = s\<lparr>properties := (properties s)(propertyId :=
                            (properties s propertyId)\<lparr>value_f := newValue\<rparr>)\<rparr>;
                     s2 = s1\<lparr>properties := (properties s1)(propertyId :=
                            (properties s1 propertyId)\<lparr>lastTransferDate := timestamp e\<rparr>)\<rparr>;
                     s3 = s2\<lparr>properties := (properties s2)(propertyId :=
                            (properties s2 propertyId)\<lparr>status := TRANSFERRED\<rparr>)\<rparr>;
                     s4 = removePropertyFromOwner currentOwner propertyId s3;
                     s5 = s4\<lparr>ownerProperties := (ownerProperties s4)(newOwner :=
                            ownerProperties s4 newOwner @ [propertyId])\<rparr>
                 in (case transfer currentOwner newOwner propertyId s5 of
                       Inl err \<Rightarrow> Inl err
                     | Inr s6 \<Rightarrow>
                         Inr ([PropertyTransferred propertyId currentOwner newOwner newValue],
                              s6\<lparr>properties := (properties s6)(propertyId :=
                                 (properties s6 propertyId)\<lparr>status := ACTIVE\<rparr>)\<rparr>))))))"

definition verifyProperty ::
  "env \<Rightarrow> uint256 \<Rightarrow> bool \<Rightarrow> state \<Rightarrow> error + (event list \<times> state)" where
  "verifyProperty e propertyId isVerified s =
     (if \<not> hasRole s SURVEYOR_ROLE (sender e) then Inl (MissingRole SURVEYOR_ROLE)
      else if paused s then Inl Paused
      else if \<not> exists_f s propertyId then Inl PropertyDoesNotExist
      else Inr ([PropertyVerified propertyId (sender e) isVerified],
                s\<lparr>properties := (properties s)(propertyId :=
                   (properties s propertyId)\<lparr>verified := isVerified\<rparr>)\<rparr>))"

definition changePropertyStatus ::
  "env \<Rightarrow> uint256 \<Rightarrow> PropertyStatus \<Rightarrow> state \<Rightarrow> error + (event list \<times> state)" where
  "changePropertyStatus e propertyId newStatus s =
     (if \<not> hasRole s ADMIN_ROLE (sender e) then Inl (MissingRole ADMIN_ROLE)
      else if paused s then Inl Paused
      else if \<not> exists_f s propertyId then Inl PropertyDoesNotExist
      else
        (let oldStatus = status (properties s propertyId)
         in Inr ([PropertyStatusChanged propertyId oldStatus newStatus],
                 s\<lparr>properties := (properties s)(propertyId :=
                    (properties s propertyId)\<lparr>status := newStatus\<rparr>)\<rparr>)))"

definition updatePropertyValue ::
  "env \<Rightarrow> uint256 \<Rightarrow> uint256 \<Rightarrow> state \<Rightarrow> error + (event list \<times> state)" where
  "updatePropertyValue e propertyId newValue s =
     (if \<not> hasRole s TAX_AUTHORITY_ROLE (sender e) then Inl (MissingRole TAX_AUTHORITY_ROLE)
      else if paused s then Inl Paused
      else if \<not> exists_f s propertyId then Inl PropertyDoesNotExist
      else if \<not> (0 < newValue) then Inl ValueZero
      else
        (let oldValue = value_f (properties s propertyId)
         in Inr ([PropertyValueUpdated propertyId oldValue newValue (sender e)],
                 s\<lparr>properties := (properties s)(propertyId :=
                    (properties s propertyId)\<lparr>value_f := newValue\<rparr>)\<rparr>)))"

text \<open>The read accessors.\<close>

definition getProperty :: "state \<Rightarrow> uint256 \<Rightarrow> error + Property" where
  "getProperty s propertyId =
     (if \<not> exists_f s propertyId then Inl PropertyDoesNotExist else Inr (properties s propertyId))"

definition getPropertyIdByLocation :: "state \<Rightarrow> string \<Rightarrow> uint256" where
  "getPropertyIdByLocation s loc = locationToPropertyId s loc"

definition getPropertiesByOwner :: "state \<Rightarrow> address \<Rightarrow> uint256 list" where
  "getPropertiesByOwner s ow = ownerProperties s ow"

definition getTotalProperties :: "state \<Rightarrow> uint256" where
  "getTotalProperties s = propertyIdCounter s"

text \<open>\<open>pause\<close> and \<open>unpause\<close>: the role check of the contract, then the internal function
  of the pausable base contract, which requires the opposite flag.\<close>

definition pause :: "env \<Rightarrow> state \<Rightarrow> error + (event list \<times> state)" where
  "pause e s =
     (if \<not> hasRole s ADMIN_ROLE (sender e) then Inl (MissingRole ADMIN_ROLE)
      else if paused s then Inl Paused
      else Inr ([], s\<lparr>paused := True\<rparr>))"

definition unpause :: "env \<Rightarrow> state \<Rightarrow> error + (event list \<times> state)" where
  "unpause e s =
     (if \<not> hasRole s ADMIN_ROLE (sender e) then Inl (MissingRole ADMIN_ROLE)
      else if \<not> paused s then Inl NotPaused
      else Inr ([], s\<lparr>paused := False\<rparr>))"

subsection \<open>Transactions\<close>

text \<open>The external calls of the contract. A transaction that reverts leaves the storage
  as it was; one that succeeds installs the storage it computed.\<close>

datatype call =
    RegisterProperty address string string uint256 uint256 PropertyType string string
  | TransferProperty uint256 address uint256
  | VerifyProperty uint256 bool
  | ChangePropertyStatus uint256 PropertyStatus
  | UpdatePropertyValue uint256 uint256
  | Pause
  | Unpause
  | GrantRole role address
  | RevokeRole role address
  | RenounceRole role address
  | Approve address uint256
  | SetApprovalForAll address bool
  | TransferFrom address address uint256
  | SafeTransferFrom address address uint256

fun execute :: "env \<Rightarrow> call \<Rightarrow> state \<Rightarrow> error + (event list \<times> state)" where
  "execute e (RegisterProperty ow loc coords ar val ptype docHash uri) s =
     (case registerProperty e ow loc coords ar val ptype docHash uri s of
        Inl err \<Rightarrow> Inl err
      | Inr (propertyId, evs, s') \<Rightarrow> Inr (evs, s'))"
| "execute e (TransferProperty propertyId newOwner newValue) s =
     transferProperty e propertyId newOwner newValue s"
| "execute e (VerifyProperty propertyId isVerified) s = verifyProperty e propertyId isVerified s"
| "execute e (ChangePropertyStatus propertyId newStatus) s =
     changePropertyStatus e propertyId newStatus s"
| "execute e (UpdatePropertyValue propertyId newValue) s =
     updatePropertyValue e propertyId newValue s"
| "execute e Pause s = pause e s"
| "execute e Unpause s = unpause e s"
| "execute e (GrantRole r account) s = grantRole e r account s"
| "execute e (RevokeRole r account) s = revokeRole e r account s"
| "execute e (RenounceRole r account) s = renounceRole e r account s"
| "execute e (Approve to tokenId) s = approve e to tokenId s"
| "execute e (SetApprovalForAll operator approved) s = setApprovalForAll e operator approved s"
| "execute e (TransferFrom from to tokenId) s = transferFrom e from to tokenId s"
| "execute e (SafeTransferFrom from to tokenId) s = safeTransferFrom e from to tokenId s"

definition transact :: "env \<Rightarrow> call \<Rightarrow> state \<Rightarrow> state" where
  "transact e c s = (case execute e c s of Inl err \<Rightarrow> s | Inr (evs, s') \<Rightarrow> s')"

fun run :: "(env \<times> call) list \<Rightarrow> state \<Rightarrow> state" where
  "run [] s = s"
| "run ((e, c) # txs) s = run txs (transact e c s)"

text \<open>The registration a call makes when it succeeds: the id it returns and its
  location.\<close>

fun registered :: "env \<Rightarrow> call \<Rightarrow> state \<Rightarrow> (uint256 \<times> string) list" where
  "registered e (RegisterProperty ow loc coords ar val ptype docHash uri) s =
     (case registerProperty e ow loc coords ar val ptype docHash uri s of
        Inl err \<Rightarrow> []
      | Inr (propertyId, evs, s') \<Rightarrow> [(propertyId, loc)])"
| "registered e c s = []"

subsection \<open>Receivers that call back\<close>

text \<open>
  What a receiving contract does inside its hook is a list of calls into the registry,
  each with its caller (the receiver itself or a contract it calls) and with the
  reaction of the receiver that this nested call may reach in turn, followed by its
  answer: \<open>True\<close> to accept the token. A nested call that reverts leaves the storage as
  it was and the receiver goes on; a receiver that lets the revert through is one that
  answers \<open>False\<close>.
\<close>

datatype reaction = Reaction "(address \<times> call \<times> reaction) list" bool

text \<open>The calls of a hook run one after the other in the transaction of the outer
  call, with its block timestamp. The result is the events they emit and the storage they
  leave.\<close>

fun nestedCalls ::
  "uint256 \<Rightarrow> (address \<times> call \<times> reaction) list \<Rightarrow> state \<Rightarrow> event list \<times> state" where
  "nestedCalls t [] s = ([], s)"
| "nestedCalls t ((a, c, Reaction calls ok) # rest) s =
     (case execute
             \<lparr>sender = a, timestamp = t,
              onERC721Received =
                (\<lambda>to tokenId s'. if ok then Some (nestedCalls t calls s') else None)\<rparr> c s of
        Inl err \<Rightarrow> nestedCalls t rest s
      | Inr (evs, s1) \<Rightarrow>
          (case nestedCalls t rest s1 of (evs', s2) \<Rightarrow> (evs @ evs', s2)))"

text \<open>The hook of a receiver with the reaction \<open>r\<close>: it refuses, or it makes its calls
  and accepts.\<close>

definition react ::
  "uint256 \<Rightarrow> reaction \<Rightarrow> address \<Rightarrow> uint256 \<Rightarrow> state \<Rightarrow> (event list \<times> state) option" where
  "react t r to tokenId s =
     (case r of Reaction calls ok \<Rightarrow> if ok then Some (nestedCalls t calls s) else None)"

text \<open>The environment of a call by \<open>a\<close> at time \<open>t\<close> whose receiver reacts by \<open>r\<close>.\<close>

definition callEnv :: "address \<Rightarrow> uint256 \<Rightarrow> reaction \<Rightarrow> env" where
  "callEnv a t r = \<lparr>sender = a, timestamp = t, onERC721Received = react t r\<rparr>"

text \<open>An environment whose receiver accepts and makes no call, as an account that is not
  a contract does.\<close>

definition txEnv :: "address \<Rightarrow> uint256 \<Rightarrow> env" where
  "txEnv a t =
     \<lparr>sender = a, timestamp = t, onERC721Received = (\<lambda>to tokenId s. Some ([], s))\<rparr>"

text \<open>A transaction with its receiver's reaction written out: block timestamp, caller,
  call, reaction.\<close>

fun compile :: "uint256 \<times> address \<times> call \<times> reaction \<Rightarrow> env \<times> call" where
  "compile (t, a, c, r) = (callEnv a t r, c)"

text \<open>The storage a call hands to the receiver, if the call gets that far:
  \<open>registerProperty\<close> after the counter increment and the mint, \<open>safeTransferFrom\<close>
  after the transfer.\<close>

fun hookState :: "call \<Rightarrow> state \<Rightarrow> state option" where
  "hookState (RegisterProperty ow loc coords ar val ptype docHash uri) s =
     (case mint ow (propertyIdCounter s + 1) (s\<lparr>propertyIdCounter := propertyIdCounter s + 1\<rparr>) of
        Inl err \<Rightarrow> None
      | Inr m \<Rightarrow> Some m)"
| "hookState (SafeTransferFrom from to tokenId) s =
     (case transfer from to tokenId s of Inl err \<Rightarrow> None | Inr m \<Rightarrow> Some m)"
| "hookState c s = None"

text \<open>
  The successful registrations made by a list of calls, those made inside receiver hooks
  included, in the order in which their ids were taken from the counter: a call that
  succeeds contributes its own registration, then those of the calls its receiver made.
  A call that reverts contributes nothing, whatever happened inside it.
\<close>

fun nestedRegistrations ::
  "uint256 \<Rightarrow> (address \<times> call \<times> reaction) list \<Rightarrow> state \<Rightarrow> (uint256 \<times> string) list" where
  "nestedRegistrations t [] s = []"
| "nestedRegistrations t ((a, c, Reaction calls ok) # rest) s =
     (case execute (callEnv a t (Reaction calls ok)) c s of
        Inl err \<Rightarrow> nestedRegistrations t rest s
      | Inr (evs, s1) \<Rightarrow>
          registered (callEnv a t (Reaction calls ok)) c s @
          (case hookState c s of None \<Rightarrow> [] | Some m \<Rightarrow> nestedRegistrations t calls m) @
          nestedRegistrations t rest s1)"

fun registrations ::
  "(uint256 \<times> address \<times> call \<times> reaction) list \<Rightarrow> state \<Rightarrow> (uint256 \<times> string) list" where
  "registrations [] s = []"
| "registrations ((t, a, c, r) # txs) s =
     nestedRegistrations t [(a, c, r)] s @ registrations txs (transact (callEnv a t r) c s)"

text \<open>The registrations that an event log records, and the log of a run: the events of
  its transactions that did not revert.\<close>

fun registeredEvent :: "event \<Rightarrow> (uint256 \<times> string) list" where
  "registeredEvent (PropertyRegistered propertyId ow loc val reg) = [(propertyId, loc)]"
| "registeredEvent ev = []"

definition eventRegistrations :: "event list \<Rightarrow> (uint256 \<times> string) list" where
  "eventRegistrations evs = concat (map registeredEvent evs)"

fun runLog :: "(uint256 \<times> address \<times> call \<times> reaction) list \<Rightarrow> state \<Rightarrow> event list" where
  "runLog [] s = []"
| "runLog ((t, a, c, r) # txs) s =
     (case execute (callEnv a t r) c s of Inl err \<Rightarrow> [] | Inr (evs, s') \<Rightarrow> evs) @
     runLog txs (transact (callEnv a t r) c s)"

text \<open>The number of calls in a list, nested ones included.\<close>

fun callCount :: "(address \<times> call \<times> reaction) list \<Rightarrow> nat" where
  "callCount [] = 0"
| "callCount ((a, c, Reaction calls ok) # rest) = Suc (callCount calls + callCount rest)"

text \<open>A receiver that makes no call into the registry.\<close>

fun quiet :: "reaction \<Rightarrow> bool" where
  "quiet (Reaction calls ok) = (calls = [])"

subsection \<open>Closed forms and invariants\<close>

text \<open>The checks of \<open>registerProperty\<close> before the receiver is called, the storage
  handed to the receiver, and the writes made on the storage the receiver returns;
  \<open>registerProperty_Inr_iff\<close> below proves them against the function.\<close>

definition register_checks :: "env \<Rightarrow> address \<Rightarrow> string \<Rightarrow> uint256 \<Rightarrow> state \<Rightarrow> bool" where
  "register_checks e ow loc ar s =
     (hasRole s NOTARY_ROLE (sender e) \<and> \<not> paused s \<and> ow \<noteq> 0 \<and> loc \<noteq> [] \<and> 0 < ar \<and>
      locationToPropertyId s loc = 0 \<and> \<not> exists_f s (propertyIdCounter s + 1))"

definition minted_state :: "address \<Rightarrow> state \<Rightarrow> state" where
  "minted_state ow s =
     (let pid = propertyIdCounter s + 1 in
      s\<lparr>propertyIdCounter := pid,
        balances := (balances s)(ow := balances s ow + 1),
        owners := (owners s)(pid := ow)\<rparr>)"

definition register_finish ::
  "env \<Rightarrow> address \<Rightarrow> string \<Rightarrow> string \<Rightarrow> uint256 \<Rightarrow> uint256 \<Rightarrow> PropertyType \<Rightarrow> string \<Rightarrow> string
     \<Rightarrow> uint256 \<Rightarrow> state \<Rightarrow> state" where
  "register_finish e ow loc coords ar val ptype dh uri pid s =
     s\<lparr>tokenURIs := (tokenURIs s)(pid := uri),
       properties := (properties s)(pid :=
          \<lparr>id_f = pid, location = loc, coordinates = coords,
           area = ar, value_f = val, propertyType = ptype,
           status = ACTIVE, registrationDate = timestamp e,
           lastTransferDate = timestamp e, documentHash = dh,
           registrar = sender e, verified = False\<rparr>),
       locationToPropertyId := (locationToPropertyId s)(loc := pid),
       ownerProperties := (ownerProperties s)(ow := ownerProperties s ow @ [pid])\<rparr>"

text \<open>The storage after a registration whose receiver makes no call.\<close>

definition registered_state ::
  "env \<Rightarrow> address \<Rightarrow> string \<Rightarrow> string \<Rightarrow> uint256 \<Rightarrow> uint256 \<Rightarrow> PropertyType \<Rightarrow> string \<Rightarrow> string
     \<Rightarrow> state \<Rightarrow> state" where
  "registered_state e ow loc coords ar val ptype dh uri s =
     register_finish e ow loc coords ar val ptype dh uri (propertyIdCounter s + 1)
       (minted_state ow s)"

text \<open>The same for \<open>transferProperty\<close>, proved by \<open>transferProperty_Inr_iff\<close>.\<close>

definition transfer_ok :: "env \<Rightarrow> uint256 \<Rightarrow> address \<Rightarrow> state \<Rightarrow> bool" where
  "transfer_ok e pid newOwner s =
     (hasRole s NOTARY_ROLE (sender e) \<and> \<not> paused s \<and> exists_f s pid \<and> newOwner \<noteq> 0 \<and>
      status (properties s pid) = ACTIVE \<and> owners s pid \<noteq> newOwner)"

definition transferred_state :: "env \<Rightarrow> uint256 \<Rightarrow> address \<Rightarrow> uint256 \<Rightarrow> state \<Rightarrow> state" where
  "transferred_state e pid newOwner newValue s =
     (let cur = owners s pid in
      s\<lparr>properties := (properties s)(pid :=
           (properties s pid)\<lparr>value_f := newValue, lastTransferDate := timestamp e,
                               status := ACTIVE\<rparr>),
        ownerProperties := (ownerProperties s)
           (cur := removeLoop 0 (ownerProperties s cur) pid,
            newOwner := ownerProperties s newOwner @ [pid]),
        tokenApprovals := (tokenApprovals s)(pid := 0),
        balances := (balances s)
           (cur := balances s cur - 1, newOwner := balances s newOwner + 1),
        owners := (owners s)(pid := newOwner)\<rparr>)"

text \<open>
  The invariant that holds of every storage the registry can reach, also inside a
  receiver hook. \<open>regs\<close> lists the registrations whose id has been taken (id and
  location, in the order of the ids); \<open>pending\<close> holds the locations of registrations
  that are waiting for their receiver and have not written the location index yet. The
  counter is the number of registrations, the ids are 1, 2, ... in order, the existing
  tokens are exactly the registered ids, and the location index is non-zero only at
  registered locations and at every registered location that is not pending.
\<close>

definition alloc_inv :: "state \<Rightarrow> (uint256 \<times> string) list \<Rightarrow> string set \<Rightarrow> bool" where
  "alloc_inv s regs pending =
     (unat (propertyIdCounter s) = length regs \<and>
      map (\<lambda>r. unat (fst r)) regs = [1..<Suc (length regs)] \<and>
      (\<forall>pid. exists_f s pid \<longleftrightarrow> pid \<in> fst ` set regs) \<and>
      (\<forall>loc. locationToPropertyId s loc \<noteq> 0 \<longrightarrow> loc \<in> snd ` set regs) \<and>
      (\<forall>loc \<in> snd ` set regs. loc \<notin> pending \<longrightarrow> locationToPropertyId s loc \<noteq> 0))"

text \<open>
  The stronger invariant of the runs in which no receiver calls back: the locations of
  the registrations are distinct and not empty, and the location index maps exactly the
  registered locations, each to its id.
\<close>

definition ledger_inv :: "state \<Rightarrow> (uint256 \<times> string) list \<Rightarrow> bool" where
  "ledger_inv s regs =
     (unat (propertyIdCounter s) = length regs \<and>
      map (\<lambda>r. unat (fst r)) regs = [1..<Suc (length regs)] \<and>
      distinct (map snd regs) \<and>
      [] \<notin> snd ` set regs \<and>
      list_all (\<lambda>r. locationToPropertyId s (snd r) = fst r \<and>
                    location (properties s (fst r)) = snd r) regs \<and>
      (\<forall>loc. loc \<notin> snd ` set regs \<longrightarrow> locationToPropertyId s loc = 0) \<and>
      (\<forall>pid. exists_f s pid \<longleftrightarrow> pid \<in> fst ` set regs))"

text \<open>What a call other than a registration leaves alone: the counter, the location
  index, which tokens exist, and the location stored for each id.\<close>

definition same_ledger :: "state \<Rightarrow> state \<Rightarrow> bool" where
  "same_ledger s s' =
     (propertyIdCounter s' = propertyIdCounter s \<and>
      locationToPropertyId s' = locationToPropertyId s \<and>
      (\<forall>pid. exists_f s' pid = exists_f s pid) \<and>
      (\<forall>pid. location (properties s' pid) = location (properties s pid)))"

text \<open>The per-owner index agrees with token ownership: no list holds an id twice, and
  an id is in the list of an account exactly when the account owns the token.\<close>

definition index_inv :: "state \<Rightarrow> bool" where
  "index_inv s =
     ((\<forall>a. distinct (ownerProperties s a)) \<and>
      (\<forall>a pid. pid \<in> set (ownerProperties s a) \<longleftrightarrow> owners s pid = a \<and> a \<noteq> 0))"

text \<open>The two inherited entry points that move a token.\<close>

fun token_transfer :: "call \<Rightarrow> bool" where
  "token_transfer (TransferFrom from to tokenId) = True"
| "token_transfer (SafeTransferFrom from to tokenId) = True"
| "token_transfer c = False"

subsection \<open>Concrete runs\<close>

text \<open>The deployer 1 makes 2 a notary, 3 a surveyor and 4 a tax authority, and the
  notary registers a parcel for the owner 10.\<close>

definition demoTrace :: "(env \<times> call) list" where
  "demoTrace =
    [(txEnv 1 100, GrantRole NOTARY_ROLE 2),
     (txEnv 1 101, GrantRole SURVEYOR_ROLE 3),
     (txEnv 1 102, GrantRole TAX_AUTHORITY_ROLE 4),
     (txEnv 2 103,
        RegisterProperty 10 ''Lot 7'' ''4.05,9.70'' 500 1000 RESIDENTIAL ''Qm1'' ''ipfs://1'')]"

definition demoState :: state where
  "demoState = run demoTrace (constructor 1)"

text \<open>The same run with the reactions written out.\<close>

definition demoScript :: "(uint256 \<times> address \<times> call \<times> reaction) list" where
  "demoScript =
    [(100, 1, GrantRole NOTARY_ROLE 2, Reaction [] True),
     (101, 1, GrantRole SURVEYOR_ROLE 3, Reaction [] True),
     (102, 1, GrantRole TAX_AUTHORITY_ROLE 4, Reaction [] True),
     (103, 2,
        RegisterProperty 10 ''Lot 7'' ''4.05,9.70'' 500 1000 RESIDENTIAL ''Qm1'' ''ipfs://1'',
        Reaction [] True)]"

text \<open>A run in which the token changes hands through the inherited \<open>transferFrom\<close>: the
  notary 2 registers parcel 1 for the owner 10, the owner sends the token to 11, and the
  notary transfers the parcel back to 10.\<close>

definition staleTrace :: "(env \<times> call) list" where
  "staleTrace =
    [(txEnv 1 100, GrantRole NOTARY_ROLE 2),
     (txEnv 2 101,
        RegisterProperty 10 ''Lot 7'' ''4.05,9.70'' 500 1000 RESIDENTIAL ''Qm1'' ''ipfs://1''),
     (txEnv 10 102, TransferFrom 10 11 1),
     (txEnv 2 103, TransferProperty 1 10 1200)]"

text \<open>A receiver that calls back to register: the deployer 1 makes the contract 20 a
  notary; 20 registers a parcel at \<open>Lot 7\<close> for itself, and inside the hook of that
  registration registers a second parcel at the same location.\<close>

definition reentrantScript :: "(uint256 \<times> address \<times> call \<times> reaction) list" where
  "reentrantScript =
    [(100, 1, GrantRole NOTARY_ROLE 20, Reaction [] True),
     (101, 20,
        RegisterProperty 20 ''Lot 7'' ''4.05,9.70'' 500 1000 RESIDENTIAL ''Qm1'' ''ipfs://1'',
        Reaction
          [(20,
            RegisterProperty 20 ''Lot 7'' ''4.05,9.70'' 500 1000 RESIDENTIAL ''Qm1'' ''ipfs://1'',
            Reaction [] True)]
          True)]"


section \<open>The frontend API client (apiService.ts)\<close>

text \<open>The part of the browser that the response interceptor touches: the local storage
  and the location of the window.\<close>

record httpResponse =
  status_r :: int

record axiosError =
  response :: "httpResponse option"

record browser =
  localStorage :: "string \<rightharpoonup> string"
  href :: string

definition removeItem :: "string \<Rightarrow> (string \<rightharpoonup> string) \<Rightarrow> (string \<rightharpoonup> string)" where
  "removeItem k st = st(k := None)"

text \<open>The rejection handler of the response interceptor. The optional chain
  \<open>error.response?.status === 401\<close> is false when the error carries no response. The
  handler returns the rejected error.\<close>

definition onRejected :: "axiosError \<Rightarrow> browser \<Rightarrow> browser \<times> axiosError" where
  "onRejected err b =
     (if (case response err of None \<Rightarrow> False | Some r \<Rightarrow> status_r r = 401)
      then (b\<lparr>localStorage := removeItem ''auth_token'' (localStorage b), href := ''/''\<rparr>, err)
      else (b, err))"

text \<open>The fulfilment handler of the response interceptor returns the response.\<close>

definition onFulfilled :: "httpResponse \<Rightarrow> browser \<Rightarrow> browser \<times> httpResponse" where
  "onFulfilled r b = (b, r)"

text \<open>Modelled from the spec: the HTTP client library is not part of the sources. The
  client is created without a status validator, and the default one of the library
  fulfils a response whose status is in 200..299 and rejects any other with an error that
  carries the response.\<close>

definition receive :: "httpResponse \<Rightarrow> browser \<Rightarrow> browser \<times> (axiosError + httpResponse)" where
  "receive r b =
     (if 200 \<le> status_r r \<and> status_r r < 300
      then (case onFulfilled r b of (b', r') \<Rightarrow> (b', Inr r'))
      else (case onRejected \<lparr>response = Some r\<rparr> b of (b', err) \<Rightarrow> (b', Inl err)))"

section \<open>Properties of the contract\<close>

subsection \<open>Environments and closed forms\<close>

lemma callEnv_simps [simp]:
  "sender (callEnv a t r) = a"
  "timestamp (callEnv a t r) = t"
  "onERC721Received (callEnv a t (Reaction calls ok)) to tokenId s =
     (if ok then Some (nestedCalls t calls s) else None)"
  by (simp_all add: callEnv_def react_def)

lemma txEnv_simps [simp]:
  "sender (txEnv a t) = a"
  "timestamp (txEnv a t) = t"
  "onERC721Received (txEnv a t) to tokenId s = Some ([], s)"
  by (simp_all add: txEnv_def)

lemma txEnv_callEnv: "txEnv a t = callEnv a t (Reaction [] True)"
  by (simp add: txEnv_def callEnv_def react_def fun_eq_iff)

lemma nestedCalls_Cons:
  "nestedCalls t ((a, c, r) # rest) s =
     (case execute (callEnv a t r) c s of
        Inl err \<Rightarrow> nestedCalls t rest s
      | Inr (evs, s1) \<Rightarrow> (case nestedCalls t rest s1 of (evs', s2) \<Rightarrow> (evs @ evs', s2)))"
proof (cases r)
  case (Reaction calls ok)
  have "callEnv a t (Reaction calls ok) =
      \<lparr>sender = a, timestamp = t,
       onERC721Received = (\<lambda>to tokenId s'. if ok then Some (nestedCalls t calls s') else None)\<rparr>"
    by (simp add: callEnv_def react_def fun_eq_iff)
  then show ?thesis
    by (simp add: Reaction)
qed

lemma transact_single: "transact (callEnv a t r) c s = snd (nestedCalls t [(a, c, r)] s)"
  by (simp add: nestedCalls_Cons transact_def split: sum.splits prod.splits)

lemma mint_minted:
  "ow \<noteq> 0 \<Longrightarrow> \<not> paused s \<Longrightarrow> \<not> exists_f s (propertyIdCounter s + 1) \<Longrightarrow>
   mint ow (propertyIdCounter s + 1) (s\<lparr>propertyIdCounter := propertyIdCounter s + 1\<rparr>) =
     Inr (minted_state ow s)"
  by (simp add: mint_def exists_f_def beforeTokenTransfer_def minted_state_def Let_def)

lemma registerProperty_fail:
  "\<not> register_checks e ow loc ar s \<Longrightarrow>
   isl (registerProperty e ow loc coords ar val ptype dh uri s)"
  by (auto simp add: register_checks_def registerProperty_def safeMint_def mint_def
      setTokenURI_def exists_f_def beforeTokenTransfer_def Let_def)

lemma registerProperty_checked:
  assumes "register_checks e ow loc ar s"
  shows "registerProperty e ow loc coords ar val ptype dh uri s =
     (case onERC721Received e ow (propertyIdCounter s + 1) (minted_state ow s) of
        None \<Rightarrow> Inl NonReceiver
      | Some (evs, s2) \<Rightarrow>
          if exists_f s2 (propertyIdCounter s + 1)
          then Inr (propertyIdCounter s + 1,
                    evs @ [PropertyRegistered (propertyIdCounter s + 1) ow loc val (sender e)],
                    register_finish e ow loc coords ar val ptype dh uri
                      (propertyIdCounter s + 1) s2)
          else Inl URISetOfNonexistentToken)"
proof -
  from assms have c: "hasRole s NOTARY_ROLE (sender e)" "\<not> paused s" "ow \<noteq> 0" "loc \<noteq> []"
    "0 < ar" "locationToPropertyId s loc = 0" "\<not> exists_f s (propertyIdCounter s + 1)"
    by (simp_all add: register_checks_def)
  have m: "safeMint e ow (propertyIdCounter s + 1)
        (s\<lparr>propertyIdCounter := propertyIdCounter s + 1\<rparr>) =
      (case onERC721Received e ow (propertyIdCounter s + 1) (minted_state ow s) of
         None \<Rightarrow> Inl NonReceiver | Some (evs, s2) \<Rightarrow> Inr (evs, s2))"
    using mint_minted[OF c(3,2,7)] by (simp add: safeMint_def)
  show ?thesis
    using c m
    by (simp add: registerProperty_def Let_def setTokenURI_def register_finish_def
        split: option.splits)
qed

lemma registerProperty_Inr_iff:
  "registerProperty e ow loc coords ar val ptype dh uri s = Inr r \<longleftrightarrow>
   register_checks e ow loc ar s \<and>
   (\<exists>evs s2. onERC721Received e ow (propertyIdCounter s + 1) (minted_state ow s) = Some (evs, s2) \<and>
      exists_f s2 (propertyIdCounter s + 1) \<and>
      r = (propertyIdCounter s + 1,
           evs @ [PropertyRegistered (propertyIdCounter s + 1) ow loc val (sender e)],
           register_finish e ow loc coords ar val ptype dh uri (propertyIdCounter s + 1) s2))"
proof (cases "register_checks e ow loc ar s")
  case True
  show ?thesis
    using True by (auto simp add: registerProperty_checked[OF True] split: option.splits)
next
  case False
  from registerProperty_fail[OF False, of coords val ptype dh uri] False
  show ?thesis by auto
qed

lemma exists_minted: "ow \<noteq> 0 \<Longrightarrow> exists_f (minted_state ow s) (propertyIdCounter s + 1)"
  by (simp add: minted_state_def exists_f_def Let_def)

lemma registerProperty_quiet:
  assumes "register_checks e ow loc ar s"
    and "onERC721Received e ow (propertyIdCounter s + 1) (minted_state ow s) =
           Some ([], minted_state ow s)"
  shows "registerProperty e ow loc coords ar val ptype dh uri s =
     Inr (propertyIdCounter s + 1,
          [PropertyRegistered (propertyIdCounter s + 1) ow loc val (sender e)],
          registered_state e ow loc coords ar val ptype dh uri s)"
proof -
  from assms(1) have "ow \<noteq> 0" by (simp add: register_checks_def)
  from exists_minted[OF this, of s] show ?thesis
    by (simp add: registerProperty_checked[OF assms(1)] assms(2) registered_state_def)
qed

lemma transferProperty_ok:
  "transfer_ok e pid newOwner s \<Longrightarrow>
   transferProperty e pid newOwner newValue s =
     Inr ([PropertyTransferred pid (owners s pid) newOwner newValue],
          transferred_state e pid newOwner newValue s)"
  by (auto simp add: transfer_ok_def transferProperty_def transferred_state_def transfer_def
      ownerOf_def removePropertyFromOwner_def exists_f_def beforeTokenTransfer_def Let_def)

lemma transferProperty_fail:
  "\<not> transfer_ok e pid newOwner s \<Longrightarrow> isl (transferProperty e pid newOwner newValue s)"
  by (auto simp add: transfer_ok_def transferProperty_def transfer_def
      ownerOf_def removePropertyFromOwner_def exists_f_def beforeTokenTransfer_def Let_def)

lemma transferProperty_Inr_iff:
  "transferProperty e pid newOwner newValue s = Inr r \<longleftrightarrow>
   transfer_ok e pid newOwner s \<and>
   r = ([PropertyTransferred pid (owners s pid) newOwner newValue],
        transferred_state e pid newOwner newValue s)"
  using transferProperty_ok[of e pid newOwner s newValue]
        transferProperty_fail[of e pid newOwner s newValue]
  by (cases "transfer_ok e pid newOwner s") auto

text \<open>The storage reached by \<open>demoTrace\<close>, read field by field.\<close>

lemma demoState_facts:
  "hasRole demoState NOTARY_ROLE 2" "hasRole demoState SURVEYOR_ROLE 3"
  "hasRole demoState TAX_AUTHORITY_ROLE 4" "hasRole demoState ADMIN_ROLE 1"
  "\<not> hasRole demoState NOTARY_ROLE 9" "\<not> hasRole demoState SURVEYOR_ROLE 9"
  "\<not> hasRole demoState TAX_AUTHORITY_ROLE 9" "\<not> hasRole demoState ADMIN_ROLE 9"
  "\<not> paused demoState" "exists_f demoState 1" "owners demoState 1 = 10"
  "status (properties demoState 1) = ACTIVE" "propertyIdCounter demoState = 1"
  "locationToPropertyId demoState ''Lot 7'' = 1"
  "locationToPropertyId demoState ''Lot 8'' = 0"
  "\<not> exists_f demoState 2" "\<not> exists_f demoState 5"
  "ownerProperties demoState 10 = [1]"
  "ownerProperties demoState 11 = []"
  "ownerProperties demoState 50 = []"
  by (simp_all add: demoState_def demoTrace_def transact_def grantRole_def
      constructor_def hasRole_def getRoleAdmin_def registerProperty_def safeMint_def mint_def
      exists_f_def beforeTokenTransfer_def setTokenURI_def)

lemma demo_checks: "register_checks (txEnv 2 t) 11 ''Lot 8'' 300 demoState"
  by (simp add: register_checks_def demoState_facts)

lemma demo_register:
  "registerProperty (txEnv 2 t) 11 ''Lot 8'' coords 300 val ptype dh uri demoState =
     Inr (2, [PropertyRegistered 2 11 ''Lot 8'' val 2],
          registered_state (txEnv 2 t) 11 ''Lot 8'' coords 300 val ptype dh uri demoState)"
  using registerProperty_quiet[OF demo_checks, of t coords val ptype dh uri]
  by (simp add: demoState_facts)

subsection \<open>Role gates\<close>

text \<open>
  C4. Each of the five role-gated entry points reverts with the missing-role error for a
  caller that does not hold its role (notary for \<open>registerProperty\<close> and
  \<open>transferProperty\<close>, surveyor for \<open>verifyProperty\<close>, tax authority for
  \<open>updatePropertyValue\<close>, admin for \<open>changePropertyStatus\<close>), and a call that does
  not revert was made by a holder of the role.
\<close>

theorem role_gated_entry_points:
  "(\<not> hasRole s NOTARY_ROLE (sender e) \<longrightarrow>
      registerProperty e ow loc coords ar val ptype dh uri s = Inl (MissingRole NOTARY_ROLE)) \<and>
   (\<not> hasRole s NOTARY_ROLE (sender e) \<longrightarrow>
      transferProperty e pid newOwner newValue s = Inl (MissingRole NOTARY_ROLE)) \<and>
   (\<not> hasRole s SURVEYOR_ROLE (sender e) \<longrightarrow>
      verifyProperty e pid isVerified s = Inl (MissingRole SURVEYOR_ROLE)) \<and>
   (\<not> hasRole s TAX_AUTHORITY_ROLE (sender e) \<longrightarrow>
      updatePropertyValue e pid newValue s = Inl (MissingRole TAX_AUTHORITY_ROLE)) \<and>
   (\<not> hasRole s ADMIN_ROLE (sender e) \<longrightarrow>
      changePropertyStatus e pid newStatus s = Inl (MissingRole ADMIN_ROLE)) \<and>
   (\<not> isl (registerProperty e ow loc coords ar val ptype dh uri s) \<longrightarrow>
      hasRole s NOTARY_ROLE (sender e)) \<and>
   (\<not> isl (transferProperty e pid newOwner newValue s) \<longrightarrow> hasRole s NOTARY_ROLE (sender e)) \<and>
   (\<not> isl (verifyProperty e pid isVerified s) \<longrightarrow> hasRole s SURVEYOR_ROLE (sender e)) \<and>
   (\<not> isl (updatePropertyValue e pid newValue s) \<longrightarrow> hasRole s TAX_AUTHORITY_ROLE (sender e)) \<and>
   (\<not> isl (changePropertyStatus e pid newStatus s) \<longrightarrow> hasRole s ADMIN_ROLE (sender e))"
proof -
  have 1: "\<not> hasRole s NOTARY_ROLE (sender e) \<Longrightarrow>
      registerProperty e ow loc coords ar val ptype dh uri s = Inl (MissingRole NOTARY_ROLE)"
    by (simp add: registerProperty_def)
  have 2: "\<not> hasRole s NOTARY_ROLE (sender e) \<Longrightarrow>
      transferProperty e pid newOwner newValue s = Inl (MissingRole NOTARY_ROLE)"
    by (simp add: transferProperty_def)
  have 3: "\<not> hasRole s SURVEYOR_ROLE (sender e) \<Longrightarrow>
      verifyProperty e pid isVerified s = Inl (MissingRole SURVEYOR_ROLE)"
    by (simp add: verifyProperty_def)
  have 4: "\<not> hasRole s TAX_AUTHORITY_ROLE (sender e) \<Longrightarrow>
      updatePropertyValue e pid newValue s = Inl (MissingRole TAX_AUTHORITY_ROLE)"
    by (simp add: updatePropertyValue_def)
  have 5: "\<not> hasRole s ADMIN_ROLE (sender e) \<Longrightarrow>
      changePropertyStatus e pid newStatus s = Inl (MissingRole ADMIN_ROLE)"
    by (simp add: changePropertyStatus_def)
  show ?thesis
    using 1 2 3 4 5 by (metis sum.disc(1))
qed

theorem role_gated_entry_points_witness:
  "registerProperty (txEnv 9 200) 11 ''Lot 8'' ''4.06,9.71'' 300 900 COMMERCIAL ''Qm2'' ''ipfs://2''
     demoState = Inl (MissingRole NOTARY_ROLE) \<and>
   transferProperty (txEnv 9 200) 1 11 1200 demoState = Inl (MissingRole NOTARY_ROLE) \<and>
   verifyProperty (txEnv 9 200) 1 True demoState = Inl (MissingRole SURVEYOR_ROLE) \<and>
   updatePropertyValue (txEnv 9 200) 1 1200 demoState = Inl (MissingRole TAX_AUTHORITY_ROLE) \<and>
   changePropertyStatus (txEnv 9 200) 1 FROZEN demoState = Inl (MissingRole ADMIN_ROLE) \<and>
   \<not> isl (registerProperty (txEnv 2 200) 11 ''Lot 8'' ''4.06,9.71'' 300 900 COMMERCIAL ''Qm2''
     ''ipfs://2'' demoState) \<and>
   \<not> isl (transferProperty (txEnv 2 200) 1 11 1200 demoState) \<and>
   hasRole demoState NOTARY_ROLE (sender (txEnv 2 200)) \<and>
   \<not> isl (verifyProperty (txEnv 3 200) 1 True demoState) \<and>
   hasRole demoState SURVEYOR_ROLE (sender (txEnv 3 200)) \<and>
   \<not> isl (updatePropertyValue (txEnv 4 200) 1 1200 demoState) \<and>
   hasRole demoState TAX_AUTHORITY_ROLE (sender (txEnv 4 200)) \<and>
   \<not> isl (changePropertyStatus (txEnv 1 200) 1 FROZEN demoState) \<and>
   hasRole demoState ADMIN_ROLE (sender (txEnv 1 200))"
proof -
  have out: "\<not> hasRole demoState NOTARY_ROLE (sender (txEnv 9 200))"
    "\<not> hasRole demoState SURVEYOR_ROLE (sender (txEnv 9 200))"
    "\<not> hasRole demoState TAX_AUTHORITY_ROLE (sender (txEnv 9 200))"
    "\<not> hasRole demoState ADMIN_ROLE (sender (txEnv 9 200))"
    by (simp_all add: txEnv_def demoState_facts)
  have r: "\<not> isl (registerProperty (txEnv 2 200) 11 ''Lot 8'' ''4.06,9.71'' 300 900 COMMERCIAL
     ''Qm2'' ''ipfs://2'' demoState)"
    by (simp add: demo_register)
  have t: "\<not> isl (transferProperty (txEnv 2 200) 1 11 1200 demoState)"
    by (simp add: transferProperty_ok transfer_ok_def demoState_facts txEnv_def)
  have v: "\<not> isl (verifyProperty (txEnv 3 200) 1 True demoState)"
    by (simp add: verifyProperty_def demoState_facts txEnv_def)
  have u: "\<not> isl (updatePropertyValue (txEnv 4 200) 1 1200 demoState)"
    by (simp add: updatePropertyValue_def demoState_facts txEnv_def)
  have c: "\<not> isl (changePropertyStatus (txEnv 1 200) 1 FROZEN demoState)"
    by (simp add: changePropertyStatus_def demoState_facts txEnv_def)
  note g = role_gated_entry_points[of demoState _ 11 "''Lot 8''" "''4.06,9.71''" 300 900
        COMMERCIAL "''Qm2''" "''ipfs://2''" 1 11 1200 True FROZEN]
  have o: "registerProperty (txEnv 9 200) 11 ''Lot 8'' ''4.06,9.71'' 300 900 COMMERCIAL ''Qm2''
       ''ipfs://2'' demoState = Inl (MissingRole NOTARY_ROLE) \<and>
     transferProperty (txEnv 9 200) 1 11 1200 demoState = Inl (MissingRole NOTARY_ROLE) \<and>
     verifyProperty (txEnv 9 200) 1 True demoState = Inl (MissingRole SURVEYOR_ROLE) \<and>
     updatePropertyValue (txEnv 9 200) 1 1200 demoState = Inl (MissingRole TAX_AUTHORITY_ROLE) \<and>
     changePropertyStatus (txEnv 9 200) 1 FROZEN demoState = Inl (MissingRole ADMIN_ROLE)"
    using g[of "txEnv 9 200"] out by blast
  have n: "hasRole demoState NOTARY_ROLE (sender (txEnv 2 200))"
    using g[of "txEnv 2 200"] r by blast
  have sv: "hasRole demoState SURVEYOR_ROLE (sender (txEnv 3 200))"
    using g[of "txEnv 3 200"] v by blast
  have ta: "hasRole demoState TAX_AUTHORITY_ROLE (sender (txEnv 4 200))"
    using g[of "txEnv 4 200"] u by blast
  have ad: "hasRole demoState ADMIN_ROLE (sender (txEnv 1 200))"
    using g[of "txEnv 1 200"] c by blast
  show ?thesis
    using o n sv ta ad r t v u c by blast
qed

subsection \<open>Guards of the transfer\<close>

text \<open>
  C7. \<open>transferProperty\<close> reverts when the new owner is the current owner of the
  property and when the status of the property is not \<open>ACTIVE\<close>; when the earlier checks
  pass, the revert reasons are the self-transfer check and the status check. A call that
  does not revert was made on an existing property with status \<open>ACTIVE\<close>, to a new owner
  that is neither the zero address nor the current owner.
\<close>

theorem transferProperty_guards:
  "(ownerOf s pid = Inr newOwner \<longrightarrow> isl (transferProperty e pid newOwner newValue s)) \<and>
   (status (properties s pid) \<noteq> ACTIVE \<longrightarrow> isl (transferProperty e pid newOwner newValue s)) \<and>
   (hasRole s NOTARY_ROLE (sender e) \<and> \<not> paused s \<and> status (properties s pid) = ACTIVE \<and>
    ownerOf s pid = Inr newOwner \<longrightarrow>
      transferProperty e pid newOwner newValue s = Inl SameOwner) \<and>
   (hasRole s NOTARY_ROLE (sender e) \<and> \<not> paused s \<and> exists_f s pid \<and> newOwner \<noteq> 0 \<and>
    status (properties s pid) \<noteq> ACTIVE \<longrightarrow>
      transferProperty e pid newOwner newValue s = Inl NotTransferable) \<and>
   (\<not> isl (transferProperty e pid newOwner newValue s) \<longrightarrow>
      exists_f s pid \<and> status (properties s pid) = ACTIVE \<and> newOwner \<noteq> 0 \<and>
      ownerOf s pid \<noteq> Inr newOwner \<and> ownerOf s pid \<noteq> Inl InvalidTokenId)"
proof -
  have same: "ownerOf s pid = Inr newOwner \<Longrightarrow> \<not> transfer_ok e pid newOwner s"
    by (auto simp add: ownerOf_def transfer_ok_def split: if_splits)
  have inactive: "status (properties s pid) \<noteq> ACTIVE \<Longrightarrow> \<not> transfer_ok e pid newOwner s"
    by (simp add: transfer_ok_def)
  have same_reason: "hasRole s NOTARY_ROLE (sender e) \<Longrightarrow> \<not> paused s \<Longrightarrow>
      status (properties s pid) = ACTIVE \<Longrightarrow> ownerOf s pid = Inr newOwner \<Longrightarrow>
      transferProperty e pid newOwner newValue s = Inl SameOwner"
    by (auto simp add: transferProperty_def ownerOf_def exists_f_def split: if_splits)
  have inactive_reason: "hasRole s NOTARY_ROLE (sender e) \<Longrightarrow> \<not> paused s \<Longrightarrow>
      exists_f s pid \<Longrightarrow> newOwner \<noteq> 0 \<Longrightarrow> status (properties s pid) \<noteq> ACTIVE \<Longrightarrow>
      transferProperty e pid newOwner newValue s = Inl NotTransferable"
    by (simp add: transferProperty_def)
  have only: "\<not> isl (transferProperty e pid newOwner newValue s) \<Longrightarrow>
      exists_f s pid \<and> status (properties s pid) = ACTIVE \<and> newOwner \<noteq> 0 \<and>
      ownerOf s pid \<noteq> Inr newOwner \<and> ownerOf s pid \<noteq> Inl InvalidTokenId"
    using transferProperty_fail[of e pid newOwner s newValue]
    by (auto simp add: transfer_ok_def ownerOf_def exists_f_def)
  show ?thesis
    using same inactive same_reason inactive_reason only
      transferProperty_fail[of e pid newOwner s newValue]
    by blast
qed

theorem transferProperty_guards_witness:
  "transferProperty (txEnv 2 200) 1 10 1200 demoState = Inl SameOwner \<and>
   transferProperty (txEnv 2 201) 1 11 1200
     (demoState\<lparr>properties := (properties demoState)(1 :=
        (properties demoState 1)\<lparr>status := FROZEN\<rparr>)\<rparr>) = Inl NotTransferable \<and>
   \<not> isl (transferProperty (txEnv 2 200) 1 11 1200 demoState) \<and>
   exists_f demoState 1 \<and> status (properties demoState 1) = ACTIVE \<and>
   ownerOf demoState 1 \<noteq> Inr 11"
proof -
  have o: "ownerOf demoState 1 = Inr 10"
    by (simp add: ownerOf_def demoState_facts)
  have r: "hasRole demoState NOTARY_ROLE (sender (txEnv 2 200))" "\<not> paused demoState"
    "status (properties demoState 1) = ACTIVE"
    by (simp_all add: txEnv_def demoState_facts)
  have f: "hasRole (demoState\<lparr>properties := (properties demoState)(1 :=
        (properties demoState 1)\<lparr>status := FROZEN\<rparr>)\<rparr>) NOTARY_ROLE (sender (txEnv 2 201)) \<and>
      \<not> paused (demoState\<lparr>properties := (properties demoState)(1 :=
        (properties demoState 1)\<lparr>status := FROZEN\<rparr>)\<rparr>) \<and>
      exists_f (demoState\<lparr>properties := (properties demoState)(1 :=
        (properties demoState 1)\<lparr>status := FROZEN\<rparr>)\<rparr>) 1 \<and> (11::address) \<noteq> 0 \<and>
      status (properties (demoState\<lparr>properties := (properties demoState)(1 :=
        (properties demoState 1)\<lparr>status := FROZEN\<rparr>)\<rparr>) 1) \<noteq> ACTIVE"
    using demoState_facts by (simp add: txEnv_def hasRole_def exists_f_def)
  have t: "\<not> isl (transferProperty (txEnv 2 200) 1 11 1200 demoState)"
    by (simp add: transferProperty_ok transfer_ok_def demoState_facts txEnv_def)
  have a: "transferProperty (txEnv 2 200) 1 10 1200 demoState = Inl SameOwner"
    using transferProperty_guards[of demoState 1 10 "txEnv 2 200" 1200] o r by simp
  have b: "transferProperty (txEnv 2 201) 1 11 1200
     (demoState\<lparr>properties := (properties demoState)(1 :=
        (properties demoState 1)\<lparr>status := FROZEN\<rparr>)\<rparr>) = Inl NotTransferable"
    using transferProperty_guards[of "demoState\<lparr>properties := (properties demoState)(1 :=
        (properties demoState 1)\<lparr>status := FROZEN\<rparr>)\<rparr>" 1 11 "txEnv 2 201" 1200] f by blast
  have c: "exists_f demoState 1 \<and> status (properties demoState 1) = ACTIVE \<and>
      ownerOf demoState 1 \<noteq> Inr 11"
    using transferProperty_guards[of demoState 1 11 "txEnv 2 200" 1200] t by blast
  show ?thesis using a b c t by simp
qed

subsection \<open>Verification\<close>

text \<open>
  C8. On an existing property, while the contract is not paused, \<open>verifyProperty\<close> with
  the same flag called twice by surveyors succeeds both times, and the storage after the
  second call is the storage after the first.
\<close>

theorem verifyProperty_idempotent:
  assumes "exists_f s pid" and "\<not> paused s"
    and "hasRole s SURVEYOR_ROLE (sender e)" and "hasRole s SURVEYOR_ROLE (sender e')"
  shows "\<exists>s1. verifyProperty e pid v s = Inr ([PropertyVerified pid (sender e) v], s1) \<and>
              verifyProperty e' pid v s1 = Inr ([PropertyVerified pid (sender e') v], s1) \<and>
              verified (properties s1 pid) = v"
  using assms by (simp add: verifyProperty_def exists_f_def hasRole_def)

theorem verifyProperty_idempotent_witness:
  "\<exists>s1. verifyProperty (txEnv 3 200) 1 True demoState =
            Inr ([PropertyVerified 1 (sender (txEnv 3 200)) True], s1) \<and>
         verifyProperty (txEnv 3 201) 1 True s1 =
            Inr ([PropertyVerified 1 (sender (txEnv 3 201)) True], s1) \<and>
         verified (properties s1 1) = True"
proof -
  have h: "exists_f demoState 1" "\<not> paused demoState"
    "hasRole demoState SURVEYOR_ROLE (sender (txEnv 3 200))"
    "hasRole demoState SURVEYOR_ROLE (sender (txEnv 3 201))"
    by (simp_all add: txEnv_def demoState_facts)
  show ?thesis
    by (rule verifyProperty_idempotent[OF h])
qed

subsection \<open>Reverts\<close>

text \<open>
  C5. A call that reverts leaves the whole storage as it was. Each of these causes makes
  its call revert: a caller without the role, a property id that does not exist, an
  empty location, a zero area, a zero value in \<open>updatePropertyValue\<close>, and a location
  that is already registered. So does a safe mint that fails, as it does when the
  receiver refuses the token: the one failure that comes after writes (the counter
  increment, the mint, and whatever the receiver's own calls wrote).
\<close>

theorem failed_call_keeps_state:
  "(isl (execute e c s) \<longrightarrow> transact e c s = s) \<and>
   (\<not> hasRole s NOTARY_ROLE (sender e) \<or> loc = [] \<or> ar = 0 \<or> locationToPropertyId s loc \<noteq> 0 \<or>
    isl (safeMint e ow (propertyIdCounter s + 1)
           (s\<lparr>propertyIdCounter := propertyIdCounter s + 1\<rparr>)) \<longrightarrow>
      isl (execute e (RegisterProperty ow loc coords ar val ptype dh uri) s) \<and>
      transact e (RegisterProperty ow loc coords ar val ptype dh uri) s = s) \<and>
   (\<not> hasRole s NOTARY_ROLE (sender e) \<or> \<not> exists_f s pid \<longrightarrow>
      isl (execute e (TransferProperty pid newOwner newValue) s) \<and>
      transact e (TransferProperty pid newOwner newValue) s = s) \<and>
   (\<not> hasRole s SURVEYOR_ROLE (sender e) \<or> \<not> exists_f s pid \<longrightarrow>
      isl (execute e (VerifyProperty pid v) s) \<and>
      transact e (VerifyProperty pid v) s = s) \<and>
   (\<not> hasRole s ADMIN_ROLE (sender e) \<or> \<not> exists_f s pid \<longrightarrow>
      isl (execute e (ChangePropertyStatus pid newStatus) s) \<and>
      transact e (ChangePropertyStatus pid newStatus) s = s) \<and>
   (\<not> hasRole s TAX_AUTHORITY_ROLE (sender e) \<or> \<not> exists_f s pid \<or> newValue = 0 \<longrightarrow>
      isl (execute e (UpdatePropertyValue pid newValue) s) \<and>
      transact e (UpdatePropertyValue pid newValue) s = s)"
proof -
  have keep: "\<And>c. isl (execute e c s) \<Longrightarrow> transact e c s = s"
    by (auto simp add: transact_def split: sum.splits)
  have reg: "\<not> hasRole s NOTARY_ROLE (sender e) \<or> loc = [] \<or> ar = 0 \<or>
      locationToPropertyId s loc \<noteq> 0 \<or>
      isl (safeMint e ow (propertyIdCounter s + 1)
             (s\<lparr>propertyIdCounter := propertyIdCounter s + 1\<rparr>)) \<Longrightarrow>
      isl (execute e (RegisterProperty ow loc coords ar val ptype dh uri) s)"
    by (auto simp add: registerProperty_def Let_def split: sum.splits)
  have tra: "\<not> hasRole s NOTARY_ROLE (sender e) \<or> \<not> exists_f s pid \<Longrightarrow>
      isl (execute e (TransferProperty pid newOwner newValue) s)"
    using transferProperty_fail[of e pid newOwner s newValue]
    by (auto simp add: transfer_ok_def)
  have ver: "\<not> hasRole s SURVEYOR_ROLE (sender e) \<or> \<not> exists_f s pid \<Longrightarrow>
      isl (execute e (VerifyProperty pid v) s)"
    by (auto simp add: verifyProperty_def)
  have chg: "\<not> hasRole s ADMIN_ROLE (sender e) \<or> \<not> exists_f s pid \<Longrightarrow>
      isl (execute e (ChangePropertyStatus pid newStatus) s)"
    by (auto simp add: changePropertyStatus_def)
  have upd: "\<not> hasRole s TAX_AUTHORITY_ROLE (sender e) \<or> \<not> exists_f s pid \<or> newValue = 0 \<Longrightarrow>
      isl (execute e (UpdatePropertyValue pid newValue) s)"
    by (auto simp add: updatePropertyValue_def)
  show ?thesis
    using keep reg tra ver chg upd by blast
qed

theorem failed_call_keeps_state_witness:
  "isl (execute (txEnv 2 200)
      (RegisterProperty 11 ''Lot 7'' ''4.06,9.71'' 300 900 COMMERCIAL ''Qm2'' ''ipfs://2'')
      demoState) \<and>
   transact (txEnv 2 200)
      (RegisterProperty 11 ''Lot 7'' ''4.06,9.71'' 300 900 COMMERCIAL ''Qm2'' ''ipfs://2'')
      demoState = demoState \<and>
   transact (txEnv 2 200) (TransferProperty 5 11 1200) demoState = demoState \<and>
   transact (txEnv 3 200) (VerifyProperty 5 True) demoState = demoState \<and>
   transact (txEnv 1 200) (ChangePropertyStatus 5 FROZEN) demoState = demoState \<and>
   transact (txEnv 4 200) (UpdatePropertyValue 1 0) demoState = demoState \<and>
   transact (callEnv 2 200 (Reaction [] False))
      (RegisterProperty 11 ''Lot 8'' ''4.06,9.71'' 300 900 COMMERCIAL ''Qm2'' ''ipfs://2'')
      demoState = demoState \<and>
   transact (callEnv 2 200 (Reaction [(2, VerifyProperty 1 True, Reaction [] True),
        (2, RegisterProperty 12 ''Lot 9'' ''4.07,9.72'' 200 800 FOREST ''Qm3'' ''ipfs://3'',
         Reaction [] True)] False))
      (RegisterProperty 11 ''Lot 8'' ''4.06,9.71'' 300 900 COMMERCIAL ''Qm2'' ''ipfs://2'')
      demoState = demoState"
proof -
  have d: "locationToPropertyId demoState ''Lot 7'' \<noteq> 0"
    by (simp add: demoState_facts)
  have n: "\<not> exists_f demoState 5"
    by (simp add: demoState_facts)
  note g = failed_call_keeps_state[of _ _ demoState "''Lot 7''" 300 11 "''4.06,9.71''" 900
      COMMERCIAL "''Qm2''" "''ipfs://2''" 5 11 1200 True FROZEN]
  have a: "isl (execute (txEnv 2 200)
      (RegisterProperty 11 ''Lot 7'' ''4.06,9.71'' 300 900 COMMERCIAL ''Qm2'' ''ipfs://2'')
      demoState) \<and>
    transact (txEnv 2 200)
      (RegisterProperty 11 ''Lot 7'' ''4.06,9.71'' 300 900 COMMERCIAL ''Qm2'' ''ipfs://2'')
      demoState = demoState"
    using g[of "txEnv 2 200"] d by blast
  have b: "transact (txEnv 2 200) (TransferProperty 5 11 1200) demoState = demoState"
    using g[of "txEnv 2 200"] n by blast
  have c: "transact (txEnv 3 200) (VerifyProperty 5 True) demoState = demoState"
    using g[of "txEnv 3 200"] n by blast
  have e: "transact (txEnv 1 200) (ChangePropertyStatus 5 FROZEN) demoState = demoState"
    using g[of "txEnv 1 200"] n by blast
  have f: "transact (txEnv 4 200) (UpdatePropertyValue 1 0) demoState = demoState"
    using failed_call_keeps_state[of "txEnv 4 200" _ demoState _ _ _ _ _ _ _ _ 1 _ 0] by blast
  have m: "isl (safeMint (callEnv 2 200 (Reaction calls False)) 11 (propertyIdCounter demoState + 1)
      (demoState\<lparr>propertyIdCounter := propertyIdCounter demoState + 1\<rparr>))" for calls
    by (simp add: safeMint_def split: sum.splits)
  have r: "transact (callEnv 2 200 (Reaction calls False))
      (RegisterProperty 11 ''Lot 8'' ''4.06,9.71'' 300 900 COMMERCIAL ''Qm2'' ''ipfs://2'')
      demoState = demoState" for calls
    using failed_call_keeps_state[of "callEnv 2 200 (Reaction calls False)" _ demoState
        "''Lot 8''" 300 11 "''4.06,9.71''" 900 COMMERCIAL "''Qm2''" "''ipfs://2''"] m[of calls]
    by blast
  show ?thesis using a b c e f r by simp
qed

subsection \<open>The pause switch\<close>

text \<open>
  C6. An admin pauses a contract that is not paused, and unpauses a paused one; neither
  call changes anything but the flag, so a pause followed by an unpause restores the
  storage. While the flag is set, each of the five mutating entry points reverts. In
  the storage left by a successful \<open>unpause\<close> the flag is clear, and each of the five
  succeeds when its other checks pass (for \<open>registerProperty\<close>: when the safe mint
  succeeds and the token is still there after the receiver's call).
\<close>

theorem paused_blocks_mutating_calls:
  "(hasRole s ADMIN_ROLE (sender a) \<and> \<not> paused s \<longrightarrow>
      pause a s = Inr ([], s\<lparr>paused := True\<rparr>) \<and>
      unpause a (s\<lparr>paused := True\<rparr>) = Inr ([], s)) \<and>
   (paused s \<longrightarrow>
      isl (registerProperty e ow loc coords ar val ptype dh uri s) \<and>
      isl (transferProperty e pid newOwner newValue s) \<and>
      isl (verifyProperty e pid isVerified s) \<and>
      isl (updatePropertyValue e pid newValue s) \<and>
      isl (changePropertyStatus e pid newStatus s)) \<and>
   (unpause a s0 = Inr (evs, s) \<longrightarrow>
      s = s0\<lparr>paused := False\<rparr> \<and>
      (hasRole s NOTARY_ROLE (sender e) \<and> ow \<noteq> 0 \<and> loc \<noteq> [] \<and> 0 < ar \<and>
       locationToPropertyId s loc = 0 \<and>
       safeMint e ow (propertyIdCounter s + 1)
         (s\<lparr>propertyIdCounter := propertyIdCounter s + 1\<rparr>) = Inr (evs2, s2) \<and>
       exists_f s2 (propertyIdCounter s + 1) \<longrightarrow>
         \<not> isl (registerProperty e ow loc coords ar val ptype dh uri s)) \<and>
      (hasRole s NOTARY_ROLE (sender e) \<and> exists_f s pid \<and> newOwner \<noteq> 0 \<and>
       status (properties s pid) = ACTIVE \<and> owners s pid \<noteq> newOwner \<longrightarrow>
         \<not> isl (transferProperty e pid newOwner newValue s)) \<and>
      (hasRole s SURVEYOR_ROLE (sender e) \<and> exists_f s pid \<longrightarrow>
         \<not> isl (verifyProperty e pid isVerified s)) \<and>
      (hasRole s TAX_AUTHORITY_ROLE (sender e) \<and> exists_f s pid \<and> 0 < newValue \<longrightarrow>
         \<not> isl (updatePropertyValue e pid newValue s)) \<and>
      (hasRole s ADMIN_ROLE (sender e) \<and> exists_f s pid \<longrightarrow>
         \<not> isl (changePropertyStatus e pid newStatus s)))"
proof -
  have switch: "hasRole s ADMIN_ROLE (sender a) \<Longrightarrow> \<not> paused s \<Longrightarrow>
      pause a s = Inr ([], s\<lparr>paused := True\<rparr>) \<and> unpause a (s\<lparr>paused := True\<rparr>) = Inr ([], s)"
    by (simp add: pause_def unpause_def hasRole_def)
  have blocked: "paused s \<Longrightarrow>
      isl (registerProperty e ow loc coords ar val ptype dh uri s) \<and>
      isl (transferProperty e pid newOwner newValue s) \<and>
      isl (verifyProperty e pid isVerified s) \<and>
      isl (updatePropertyValue e pid newValue s) \<and>
      isl (changePropertyStatus e pid newStatus s)"
    by (simp add: registerProperty_def transferProperty_def verifyProperty_def
        updatePropertyValue_def changePropertyStatus_def)
  have after: "unpause a s0 = Inr (evs, s) \<Longrightarrow> s = s0\<lparr>paused := False\<rparr> \<and> \<not> paused s"
    by (auto simp add: unpause_def split: if_splits)
  have reg: "\<not> paused s \<Longrightarrow> hasRole s NOTARY_ROLE (sender e) \<and> ow \<noteq> 0 \<and> loc \<noteq> [] \<and> 0 < ar \<and>
       locationToPropertyId s loc = 0 \<and>
       safeMint e ow (propertyIdCounter s + 1)
         (s\<lparr>propertyIdCounter := propertyIdCounter s + 1\<rparr>) = Inr (evs2, s2) \<and>
       exists_f s2 (propertyIdCounter s + 1) \<Longrightarrow>
         \<not> isl (registerProperty e ow loc coords ar val ptype dh uri s)"
    by (simp add: registerProperty_def setTokenURI_def Let_def)
  have tra: "\<not> paused s \<Longrightarrow> hasRole s NOTARY_ROLE (sender e) \<and> exists_f s pid \<and> newOwner \<noteq> 0 \<and>
       status (properties s pid) = ACTIVE \<and> owners s pid \<noteq> newOwner \<Longrightarrow>
         \<not> isl (transferProperty e pid newOwner newValue s)"
    by (simp add: transferProperty_ok transfer_ok_def)
  have rest: "\<not> paused s \<Longrightarrow>
      (hasRole s SURVEYOR_ROLE (sender e) \<and> exists_f s pid \<longrightarrow>
         \<not> isl (verifyProperty e pid isVerified s)) \<and>
      (hasRole s TAX_AUTHORITY_ROLE (sender e) \<and> exists_f s pid \<and> 0 < newValue \<longrightarrow>
         \<not> isl (updatePropertyValue e pid newValue s)) \<and>
      (hasRole s ADMIN_ROLE (sender e) \<and> exists_f s pid \<longrightarrow>
         \<not> isl (changePropertyStatus e pid newStatus s))"
    by (simp add: verifyProperty_def updatePropertyValue_def changePropertyStatus_def Let_def)
  show ?thesis
    using switch blocked after reg tra rest by blast
qed

theorem paused_blocks_mutating_calls_witness:
  "pause (txEnv 1 200) demoState = Inr ([], demoState\<lparr>paused := True\<rparr>) \<and>
   unpause (txEnv 1 200) (demoState\<lparr>paused := True\<rparr>) = Inr ([], demoState) \<and>
   isl (registerProperty (txEnv 2 201) 11 ''Lot 8'' ''4.06,9.71'' 300 900 COMMERCIAL ''Qm2''
     ''ipfs://2'' (demoState\<lparr>paused := True\<rparr>)) \<and>
   isl (transferProperty (txEnv 2 201) 1 11 1200 (demoState\<lparr>paused := True\<rparr>)) \<and>
   isl (verifyProperty (txEnv 2 201) 1 True (demoState\<lparr>paused := True\<rparr>)) \<and>
   isl (updatePropertyValue (txEnv 2 201) 1 1200 (demoState\<lparr>paused := True\<rparr>)) \<and>
   isl (changePropertyStatus (txEnv 2 201) 1 FROZEN (demoState\<lparr>paused := True\<rparr>)) \<and>
   \<not> isl (registerProperty (txEnv 2 202) 11 ''Lot 8'' ''4.06,9.71'' 300 900 COMMERCIAL ''Qm2''
     ''ipfs://2'' demoState) \<and>
   \<not> isl (transferProperty (txEnv 2 202) 1 11 1200 demoState) \<and>
   \<not> isl (verifyProperty (txEnv 3 202) 1 True demoState) \<and>
   \<not> isl (updatePropertyValue (txEnv 4 202) 1 1200 demoState) \<and>
   \<not> isl (changePropertyStatus (txEnv 1 202) 1 FROZEN demoState)"
proof -
  have adm: "hasRole demoState ADMIN_ROLE (sender (txEnv 1 200)) \<and> \<not> paused demoState"
    by (simp add: txEnv_def demoState_facts)
  have p: "paused (demoState\<lparr>paused := True\<rparr>)"
    by simp
  note sw = paused_blocks_mutating_calls[of demoState "txEnv 1 200"]
  have a: "pause (txEnv 1 200) demoState = Inr ([], demoState\<lparr>paused := True\<rparr>) \<and>
      unpause (txEnv 1 200) (demoState\<lparr>paused := True\<rparr>) = Inr ([], demoState)"
    using sw adm by blast
  have b: "isl (registerProperty (txEnv 2 201) 11 ''Lot 8'' ''4.06,9.71'' 300 900 COMMERCIAL
       ''Qm2'' ''ipfs://2'' (demoState\<lparr>paused := True\<rparr>)) \<and>
     isl (transferProperty (txEnv 2 201) 1 11 1200 (demoState\<lparr>paused := True\<rparr>)) \<and>
     isl (verifyProperty (txEnv 2 201) 1 True (demoState\<lparr>paused := True\<rparr>)) \<and>
     isl (updatePropertyValue (txEnv 2 201) 1 1200 (demoState\<lparr>paused := True\<rparr>)) \<and>
     isl (changePropertyStatus (txEnv 2 201) 1 FROZEN (demoState\<lparr>paused := True\<rparr>))"
    using paused_blocks_mutating_calls[of "demoState\<lparr>paused := True\<rparr>" _ "txEnv 2 201" 11
        "''Lot 8''" "''4.06,9.71''" 300 900 COMMERCIAL "''Qm2''" "''ipfs://2''" 1 11 1200 True
        FROZEN] p
    by blast
  have u: "unpause (txEnv 1 200) (demoState\<lparr>paused := True\<rparr>) = Inr ([], demoState)"
    using a by simp
  note af = paused_blocks_mutating_calls[of demoState "txEnv 1 200" _ 11
        "''Lot 8''" "''4.06,9.71''" 300 900 COMMERCIAL "''Qm2''" "''ipfs://2''" 1 11 1200 True
        FROZEN "demoState\<lparr>paused := True\<rparr>" "[]" "[]" "minted_state 11 demoState"]
  have sm: "safeMint (txEnv 2 202) 11 (propertyIdCounter demoState + 1)
        (demoState\<lparr>propertyIdCounter := propertyIdCounter demoState + 1\<rparr>) =
      Inr ([], minted_state 11 demoState) \<and>
      exists_f (minted_state 11 demoState) (propertyIdCounter demoState + 1)"
    using mint_minted[of 11 demoState] exists_minted[of 11 demoState]
    by (simp add: safeMint_def demoState_facts)
  have c1: "\<not> isl (registerProperty (txEnv 2 202) 11 ''Lot 8'' ''4.06,9.71'' 300 900 COMMERCIAL
      ''Qm2'' ''ipfs://2'' demoState) \<and>
      \<not> isl (transferProperty (txEnv 2 202) 1 11 1200 demoState)"
    using af[of "txEnv 2 202"] u sm by (simp add: demoState_facts)
  have c2: "\<not> isl (verifyProperty (txEnv 3 202) 1 True demoState)"
    using af[of "txEnv 3 202"] u by (simp add: txEnv_def demoState_facts)
  have c3: "\<not> isl (updatePropertyValue (txEnv 4 202) 1 1200 demoState)"
    using af[of "txEnv 4 202"] u by (simp add: txEnv_def demoState_facts)
  have c4: "\<not> isl (changePropertyStatus (txEnv 1 202) 1 FROZEN demoState)"
    using af[of "txEnv 1 202"] u by (simp add: txEnv_def demoState_facts)
  show ?thesis using a b c1 c2 c3 c4 by simp
qed

subsection \<open>Transfer and the per-owner index\<close>

lemma staleTrace_facts:
  "hasRole (run staleTrace (constructor 1)) NOTARY_ROLE 2"
  "\<not> paused (run staleTrace (constructor 1))"
  "owners (run staleTrace (constructor 1)) 1 = 10"
  "status (properties (run staleTrace (constructor 1)) 1) = ACTIVE"
  "ownerProperties (run staleTrace (constructor 1)) 10 = [1, 1]"
  "ownerProperties (run staleTrace (constructor 1)) 11 = []"
  "ownerProperties (run staleTrace (constructor 1)) 12 = []"
  by (simp_all add: staleTrace_def txEnv_def transact_def grantRole_def
      constructor_def hasRole_def getRoleAdmin_def registerProperty_def safeMint_def mint_def
      exists_f_def beforeTokenTransfer_def setTokenURI_def transferFrom_def isApprovedOrOwner_def
      ownerOf_def transfer_def transferProperty_def removePropertyFromOwner_def
      removeLoop.simps isApprovedForAll_def)

text \<open>
  C2. After the run \<open>staleTrace\<close> the owner of parcel 1 is the account 10, whose list
  holds the id twice: once from the registration, once from the transfer back, because
  the inherited \<open>transferFrom\<close> moved the token without touching the list. The next
  \<open>transferProperty\<close>, to the account 12, succeeds and makes 12 the owner, but the list
  of the previous owner 10 still contains the id.
\<close>

theorem transferProperty_stale_index:
  "ownerOf (run staleTrace (constructor 1)) 1 = Inr 10 \<and>
   getPropertiesByOwner (run staleTrace (constructor 1)) 10 = [1, 1] \<and>
   transferProperty (txEnv 2 104) 1 12 1300 (run staleTrace (constructor 1)) =
     Inr ([PropertyTransferred 1 10 12 1300],
          transferred_state (txEnv 2 104) 1 12 1300 (run staleTrace (constructor 1))) \<and>
   ownerOf (transferred_state (txEnv 2 104) 1 12 1300 (run staleTrace (constructor 1))) 1 =
     Inr 12 \<and>
   getPropertiesByOwner
     (transferred_state (txEnv 2 104) 1 12 1300 (run staleTrace (constructor 1))) 12 = [1] \<and>
   getPropertiesByOwner
     (transferred_state (txEnv 2 104) 1 12 1300 (run staleTrace (constructor 1))) 10 = [1]"
proof -
  have ok: "transfer_ok (txEnv 2 104) 1 12 (run staleTrace (constructor 1))"
    by (simp add: transfer_ok_def staleTrace_facts exists_f_def txEnv_def)
  have call: "transferProperty (txEnv 2 104) 1 12 1300 (run staleTrace (constructor 1)) =
     Inr ([PropertyTransferred 1 10 12 1300],
          transferred_state (txEnv 2 104) 1 12 1300 (run staleTrace (constructor 1)))"
    using transferProperty_ok[OF ok, of 1300] by (simp add: staleTrace_facts)
  have before: "ownerOf (run staleTrace (constructor 1)) 1 = Inr 10"
    "getPropertiesByOwner (run staleTrace (constructor 1)) 10 = [1, 1]"
    by (simp_all add: ownerOf_def getPropertiesByOwner_def staleTrace_facts)
  have after: "ownerOf (transferred_state (txEnv 2 104) 1 12 1300
        (run staleTrace (constructor 1))) 1 = Inr 12"
    "getPropertiesByOwner (transferred_state (txEnv 2 104) 1 12 1300
        (run staleTrace (constructor 1))) 12 = [1]"
    "getPropertiesByOwner (transferred_state (txEnv 2 104) 1 12 1300
        (run staleTrace (constructor 1))) 10 = [1]"
    by (simp_all add: transferred_state_def Let_def ownerOf_def getPropertiesByOwner_def
        staleTrace_facts removeLoop.simps)
  from before call after show ?thesis by simp
qed

subsection \<open>The removal loop\<close>

text \<open>The loop removes one occurrence of the id, if there is one.\<close>

lemma mset_butlast_last:
  "xs \<noteq> [] \<Longrightarrow> mset (butlast xs) = mset xs - {#last xs#}"
  by (induction xs) auto

lemma removeLoop_mset:
  "i \<le> length xs \<Longrightarrow> p \<notin> set (take i xs) \<Longrightarrow> mset (removeLoop i xs p) = mset xs - {#p#}"
proof (induction i xs p rule: removeLoop.induct)
  case (1 i xs p)
  show ?case
  proof (cases "i < length xs")
    case True
    note lt = True
    show ?thesis
    proof (cases "xs ! i = p")
      case True
      from lt have ne: "xs \<noteq> []" by auto
      let ?ys = "xs[i := xs ! (length xs - 1)]"
      have l: "last ?ys = last xs"
        using ne lt by (simp add: last_conv_nth nth_list_update)
      have "mset (butlast ?ys) = mset ?ys - {#last ?ys#}"
        using ne by (simp add: mset_butlast_last)
      also have "mset ?ys = add_mset (last xs) (mset xs - {#p#})"
        using lt True ne by (simp add: mset_update last_conv_nth)
      finally have "mset (butlast ?ys) = mset xs - {#p#}"
        using l by simp
      with lt True show ?thesis
        by (simp add: removeLoop.simps[of i xs p])
    next
      case False
      from lt have "take (Suc i) xs = take i xs @ [xs ! i]"
        by (simp add: take_Suc_conv_app_nth)
      with False "1.prems" have "p \<notin> set (take (i + 1) xs)"
        by auto
      with "1.IH"[OF lt False] lt have "mset (removeLoop (i + 1) xs p) = mset xs - {#p#}"
        by simp
      with lt False show ?thesis
        by (simp add: removeLoop.simps[of i xs p])
    qed
  next
    case False
    with "1.prems" have "p \<notin> set xs" by simp
    then have "mset xs - {#p#} = mset xs"
      by (simp add: diff_single_trivial)
    with False show ?thesis
      by (simp add: removeLoop.simps[of i xs p])
  qed
qed

lemma removeLoop_distinct:
  assumes "distinct xs"
  shows "distinct (removeLoop 0 xs p) \<and> set (removeLoop 0 xs p) = set xs - {p}"
proof -
  have m: "mset (removeLoop 0 xs p) = mset (remove1 p xs)"
    using removeLoop_mset[of 0 xs p] by simp
  from assms have "distinct (remove1 p xs)" "set (remove1 p xs) = set xs - {p}"
    by simp_all
  with m show ?thesis
    using mset_eq_imp_distinct_iff[OF m] mset_eq_setD[OF m] by simp
qed

subsection \<open>Receivers that call back during a registration\<close>


text \<open>
  C1. In the run \<open>reentrantScript\<close> the notary contract 20 registers a parcel at
  \<open>Lot 7\<close> for itself. The uniqueness check passes, the token 1 is minted, and the safe
  mint calls the receiver 20 before the location index is written; inside the hook, 20
  calls \<open>registerProperty\<close> at \<open>Lot 7\<close> again, and the uniqueness check passes again.
  Both registrations succeed: the ids 1 and 2 exist and both carry the location
  \<open>Lot 7\<close>.
\<close>

theorem registerProperty_reentrant_duplicate:
  "registrations reentrantScript (constructor 1) = [(1, ''Lot 7''), (2, ''Lot 7'')] \<and>
   exists_f (run (map compile reentrantScript) (constructor 1)) 1 \<and>
   exists_f (run (map compile reentrantScript) (constructor 1)) 2 \<and>
   location (properties (run (map compile reentrantScript) (constructor 1)) 1) = ''Lot 7'' \<and>
   location (properties (run (map compile reentrantScript) (constructor 1)) 2) = ''Lot 7'' \<and>
   getTotalProperties (run (map compile reentrantScript) (constructor 1)) = 2 \<and>
   getPropertyIdByLocation (run (map compile reentrantScript) (constructor 1)) ''Lot 7'' = 1"
  by (simp add: reentrantScript_def transact_def grantRole_def
      constructor_def hasRole_def getRoleAdmin_def registerProperty_def safeMint_def mint_def
      exists_f_def beforeTokenTransfer_def setTokenURI_def getTotalProperties_def
      getPropertyIdByLocation_def)

text \<open>What a successful registration guarantees whatever the receiver does: the id is the
  counter plus one and did not exist before, the token exists afterwards, the stored
  struct is the one given, the last event is the registration, and the id is the last
  entry of the owner's list.\<close>

lemma registerProperty_writes:
  assumes "registerProperty e ow loc coords ar val ptype dh uri s = Inr (pid, evs, s')"
  shows "\<not> exists_f s pid \<and>
         pid = propertyIdCounter s + 1 \<and>
         exists_f s' pid \<and>
         getProperty s' pid =
           Inr \<lparr>id_f = pid, location = loc, coordinates = coords, area = ar, value_f = val,
                propertyType = ptype, status = ACTIVE, registrationDate = timestamp e,
                lastTransferDate = timestamp e, documentHash = dh, registrar = sender e,
                verified = False\<rparr> \<and>
         hasRole s NOTARY_ROLE (sender e) \<and>
         (\<exists>evs0. evs = evs0 @ [PropertyRegistered pid ow loc val (sender e)]) \<and>
         (\<exists>ids. getPropertiesByOwner s' ow = ids @ [pid])"
proof -
  from assms obtain evs0 s2 where ok: "register_checks e ow loc ar s"
    and pid: "pid = propertyIdCounter s + 1"
    and ex: "exists_f s2 pid"
    and evs: "evs = evs0 @ [PropertyRegistered pid ow loc val (sender e)]"
    and s': "s' = register_finish e ow loc coords ar val ptype dh uri pid s2"
    by (auto simp add: registerProperty_Inr_iff)
  from ok have "\<not> exists_f s pid" "hasRole s NOTARY_ROLE (sender e)"
    by (simp_all add: register_checks_def pid)
  then show ?thesis
    using pid evs ex
    by (simp add: s' register_finish_def getProperty_def exists_f_def getPropertiesByOwner_def)
qed

text \<open>When the receiver makes no call, the token is the owner's, the only event is the
  registration, and the owner's list is the old one with the id appended.\<close>

lemma registerProperty_quiet_receiver:
  assumes "registerProperty e ow loc coords ar val ptype dh uri s = Inr (pid, evs, s')"
    and "onERC721Received e ow (propertyIdCounter s + 1) (minted_state ow s) =
           Some ([], minted_state ow s)"
  shows "ownerOf s' pid = Inr ow \<and>
         pid = getTotalProperties s' \<and>
         evs = [PropertyRegistered pid ow loc val (sender e)] \<and>
         getPropertiesByOwner s' ow = getPropertiesByOwner s ow @ [pid]"
proof -
  from assms have ok: "register_checks e ow loc ar s"
    and pid: "pid = propertyIdCounter s + 1"
    and evs: "evs = [PropertyRegistered pid ow loc val (sender e)]"
    and s': "s' = registered_state e ow loc coords ar val ptype dh uri s"
    by (auto simp add: registerProperty_Inr_iff registered_state_def)
  from ok have "ow \<noteq> 0"
    by (simp add: register_checks_def)
  then show ?thesis
    using pid evs
    by (simp add: s' registered_state_def register_finish_def minted_state_def Let_def
        getTotalProperties_def ownerOf_def getPropertiesByOwner_def)
qed

subsection \<open>What each call leaves alone\<close>

lemma same_ledger_refl: "same_ledger s s"
  by (simp add: same_ledger_def)

lemma transfer_same_ledger:
  "transfer from to tokenId s = Inr s' \<Longrightarrow> same_ledger s s'"
  by (auto simp add: transfer_def ownerOf_def beforeTokenTransfer_def same_ledger_def
      exists_f_def Let_def split: if_splits)

lemma transferProperty_same_ledger:
  "transferProperty e pid newOwner newValue s = Inr (evs, s') \<Longrightarrow> same_ledger s s'"
  by (auto simp add: transferProperty_Inr_iff transfer_ok_def transferred_state_def
      same_ledger_def exists_f_def Let_def)

lemma setters_same_ledger:
  "verifyProperty e pid v s = Inr (evs, s') \<Longrightarrow> same_ledger s s'"
  "changePropertyStatus e pid st s = Inr (evs, s') \<Longrightarrow> same_ledger s s'"
  "updatePropertyValue e pid nv s = Inr (evs, s') \<Longrightarrow> same_ledger s s'"
  by (auto simp add: verifyProperty_def changePropertyStatus_def updatePropertyValue_def
      same_ledger_def exists_f_def Let_def split: if_splits)

lemma switches_same_ledger:
  "pause e s = Inr (evs, s') \<Longrightarrow> same_ledger s s'"
  "unpause e s = Inr (evs, s') \<Longrightarrow> same_ledger s s'"
  "grantRole e r a s = Inr (evs, s') \<Longrightarrow> same_ledger s s'"
  "revokeRole e r a s = Inr (evs, s') \<Longrightarrow> same_ledger s s'"
  "renounceRole e r a s = Inr (evs, s') \<Longrightarrow> same_ledger s s'"
  by (auto simp add: pause_def unpause_def grantRole_def revokeRole_def renounceRole_def
      same_ledger_def exists_f_def split: if_splits)

lemma token_calls_same_ledger:
  "approve e to tokenId s = Inr (evs, s') \<Longrightarrow> same_ledger s s'"
  "setApprovalForAll e operator approved s = Inr (evs, s') \<Longrightarrow> same_ledger s s'"
  "transferFrom e from to tokenId s = Inr (evs, s') \<Longrightarrow> same_ledger s s'"
  by (auto simp add: approve_def setApprovalForAll_def transferFrom_def
      same_ledger_def exists_f_def dest: transfer_same_ledger split: if_splits sum.splits)

text \<open>The calls that reach no receiver leave the ledger alone and emit no registration
  event.\<close>

lemma plain_calls:
  "transferProperty e pid newOwner newValue s = Inr (evs, s') \<Longrightarrow>
     same_ledger s s' \<and> eventRegistrations evs = []"
  "verifyProperty e pid v s = Inr (evs, s') \<Longrightarrow> same_ledger s s' \<and> eventRegistrations evs = []"
  "changePropertyStatus e pid st s = Inr (evs, s') \<Longrightarrow>
     same_ledger s s' \<and> eventRegistrations evs = []"
  "updatePropertyValue e pid nv s = Inr (evs, s') \<Longrightarrow>
     same_ledger s s' \<and> eventRegistrations evs = []"
  "pause e s = Inr (evs, s') \<Longrightarrow> same_ledger s s' \<and> eventRegistrations evs = []"
  "unpause e s = Inr (evs, s') \<Longrightarrow> same_ledger s s' \<and> eventRegistrations evs = []"
  "grantRole e r a s = Inr (evs, s') \<Longrightarrow> same_ledger s s' \<and> eventRegistrations evs = []"
  "revokeRole e r a s = Inr (evs, s') \<Longrightarrow> same_ledger s s' \<and> eventRegistrations evs = []"
  "renounceRole e r a s = Inr (evs, s') \<Longrightarrow> same_ledger s s' \<and> eventRegistrations evs = []"
  "approve e to tokenId s = Inr (evs, s') \<Longrightarrow> same_ledger s s' \<and> eventRegistrations evs = []"
  "setApprovalForAll e operator approved s = Inr (evs, s') \<Longrightarrow>
     same_ledger s s' \<and> eventRegistrations evs = []"
  "transferFrom e from to tokenId s = Inr (evs, s') \<Longrightarrow>
     same_ledger s s' \<and> eventRegistrations evs = []"
  by (auto simp add: eventRegistrations_def same_ledger_def exists_f_def
      transferProperty_Inr_iff transfer_ok_def transferred_state_def verifyProperty_def
      changePropertyStatus_def updatePropertyValue_def pause_def unpause_def grantRole_def
      revokeRole_def renounceRole_def approve_def setApprovalForAll_def transferFrom_def
      transfer_def ownerOf_def beforeTokenTransfer_def isApprovedOrOwner_def Let_def
      split: if_splits sum.splits)

lemma safeTransferFrom_Inr:
  assumes "safeTransferFrom e from to tokenId s = Inr (evs, s1)"
  shows "\<exists>m. transfer from to tokenId s = Inr m \<and> onERC721Received e to tokenId m = Some (evs, s1)"
  using assms
  by (auto simp add: safeTransferFrom_def split: sum.splits if_splits option.splits)

text \<open>A call that succeeds is a registration, whose receiver ran on the minted storage,
  or a safe transfer, whose receiver ran on the storage after the transfer, or a call
  that reaches no receiver and leaves the ledger alone.\<close>

lemma execute_Inr_cases:
  assumes "execute e c s = Inr (evs, s1)"
  shows "(\<exists>ow loc coords ar val ptype dh uri evs0 s2.
            c = RegisterProperty ow loc coords ar val ptype dh uri \<and> ow \<noteq> 0 \<and>
            hookState c s = Some (minted_state ow s) \<and>
            onERC721Received e ow (propertyIdCounter s + 1) (minted_state ow s) = Some (evs0, s2) \<and>
            registered e c s = [(propertyIdCounter s + 1, loc)] \<and>
            evs = evs0 @ [PropertyRegistered (propertyIdCounter s + 1) ow loc val (sender e)] \<and>
            s1 = register_finish e ow loc coords ar val ptype dh uri (propertyIdCounter s + 1) s2) \<or>
         (\<exists>src dst tokenId m.
            c = SafeTransferFrom src dst tokenId \<and> hookState c s = Some m \<and> same_ledger s m \<and>
            onERC721Received e dst tokenId m = Some (evs, s1) \<and> registered e c s = []) \<or>
         (hookState c s = None \<and> registered e c s = [] \<and> same_ledger s s1 \<and>
          eventRegistrations evs = [])"
proof (cases c)
  case (RegisterProperty ow loc coords ar val ptype dh uri)
  with assms obtain r where r: "registerProperty e ow loc coords ar val ptype dh uri s = Inr r"
    and s1: "s1 = snd (snd r)" and evs: "evs = fst (snd r)"
    by (auto split: sum.splits)
  from r obtain evs0 s2 where ok: "register_checks e ow loc ar s"
    and hook: "onERC721Received e ow (propertyIdCounter s + 1) (minted_state ow s) = Some (evs0, s2)"
    and r': "r = (propertyIdCounter s + 1,
           evs0 @ [PropertyRegistered (propertyIdCounter s + 1) ow loc val (sender e)],
           register_finish e ow loc coords ar val ptype dh uri (propertyIdCounter s + 1) s2)"
    by (auto simp add: registerProperty_Inr_iff)
  from ok have c: "ow \<noteq> 0" "\<not> paused s" "\<not> exists_f s (propertyIdCounter s + 1)"
    by (simp_all add: register_checks_def)
  have "hookState c s = Some (minted_state ow s)"
    using mint_minted[OF c] by (simp add: RegisterProperty)
  moreover have "registered e c s = [(propertyIdCounter s + 1, loc)]"
    by (simp add: RegisterProperty r r')
  ultimately show ?thesis
    using RegisterProperty c(1) hook s1 evs r' by simp
next
  case (SafeTransferFrom src dst tokenId)
  with assms safeTransferFrom_Inr[of e src dst tokenId s evs s1]
  obtain m where m: "transfer src dst tokenId s = Inr m"
    "onERC721Received e dst tokenId m = Some (evs, s1)"
    by auto
  from transfer_same_ledger[OF m(1)] m show ?thesis
    by (simp add: SafeTransferFrom)
qed (use assms in \<open>auto dest: plain_calls\<close>)

subsection \<open>The invariant of every run\<close>

lemma alloc_inv_constructor: "alloc_inv (constructor deployer) [] {}"
  by (simp add: alloc_inv_def constructor_def exists_f_def)

lemma alloc_inv_same:
  "alloc_inv s regs P \<Longrightarrow> same_ledger s s' \<Longrightarrow> alloc_inv s' regs P"
  by (simp add: alloc_inv_def same_ledger_def)

lemma alloc_inv_ids:
  assumes "alloc_inv s regs P" and "r \<in> set regs"
  shows "1 \<le> unat (fst r) \<and> unat (fst r) \<le> length regs"
proof -
  from assms(2) have "unat (fst r) \<in> set (map (\<lambda>r. unat (fst r)) regs)"
    by (simp add: image_iff) blast
  also from assms(1) have "map (\<lambda>r. unat (fst r)) regs = [1..<Suc (length regs)]"
    by (simp add: alloc_inv_def)
  finally show ?thesis by auto
qed

lemma unat_counter_succ:
  fixes c :: uint256
  assumes "Suc (unat c) < 2 ^ 256"
  shows "unat (c + 1) = Suc (unat c)"
proof -
  have "unat (c + 1) = (unat c + 1) mod 2 ^ 256"
    by (simp add: unat_word_ariths)
  also have "\<dots> = Suc (unat c)"
    using assms by simp
  finally show ?thesis .
qed

text \<open>Taking an id: the counter increment and the mint, before the receiver is called.\<close>

lemma alloc_inv_minted:
  assumes inv: "alloc_inv s regs P"
    and bound: "Suc (length regs) < 2 ^ 256"
    and ow: "ow \<noteq> 0"
  shows "alloc_inv (minted_state ow s) (regs @ [(propertyIdCounter s + 1, loc)]) (insert loc P)"
proof -
  let ?pid = "propertyIdCounter s + 1"
  let ?m = "minted_state ow s"
  from inv have cnt: "unat (propertyIdCounter s) = length regs"
    and ids: "map (\<lambda>r. unat (fst r)) regs = [1..<Suc (length regs)]"
    and tokens: "\<forall>p. exists_f s p \<longleftrightarrow> p \<in> fst ` set regs"
    and only: "\<forall>l. locationToPropertyId s l \<noteq> 0 \<longrightarrow> l \<in> snd ` set regs"
    and written: "\<forall>l \<in> snd ` set regs. l \<notin> P \<longrightarrow> locationToPropertyId s l \<noteq> 0"
    by (simp_all add: alloc_inv_def)
  have upid: "unat ?pid = Suc (length regs)"
    using unat_counter_succ[of "propertyIdCounter s"] bound cnt by simp
  have st: "propertyIdCounter ?m = ?pid" "locationToPropertyId ?m = locationToPropertyId s"
    "\<And>p. exists_f ?m p \<longleftrightarrow> p = ?pid \<or> exists_f s p"
    using ow by (simp_all add: minted_state_def Let_def exists_f_def)
  have 1: "unat (propertyIdCounter ?m) = length (regs @ [(?pid, loc)])"
    using upid by (simp add: st)
  have 2: "map (\<lambda>r. unat (fst r)) (regs @ [(?pid, loc)]) =
      [1..<Suc (length (regs @ [(?pid, loc)]))]"
    using ids upid by simp
  have 3: "\<forall>p. exists_f ?m p \<longleftrightarrow> p \<in> fst ` set (regs @ [(?pid, loc)])"
    using tokens by (auto simp add: st)
  have 4: "\<forall>l. locationToPropertyId ?m l \<noteq> 0 \<longrightarrow> l \<in> snd ` set (regs @ [(?pid, loc)])"
    using only by (auto simp add: st)
  have 5: "\<forall>l \<in> snd ` set (regs @ [(?pid, loc)]). l \<notin> insert loc P \<longrightarrow>
      locationToPropertyId ?m l \<noteq> 0"
    using written by (auto simp add: st)
  from 1 2 3 4 5 show ?thesis
    unfolding alloc_inv_def by blast
qed

text \<open>Completing a registration: the writes made after the receiver has returned.\<close>

lemma alloc_inv_finish:
  assumes inv: "alloc_inv s2 regs (insert loc P)"
    and mem: "(pid, loc) \<in> set regs"
  shows "alloc_inv (register_finish e ow loc coords ar val ptype dh uri pid s2) regs P"
proof -
  let ?s' = "register_finish e ow loc coords ar val ptype dh uri pid s2"
  from inv have cnt: "unat (propertyIdCounter s2) = length regs"
    and ids: "map (\<lambda>r. unat (fst r)) regs = [1..<Suc (length regs)]"
    and tokens: "\<forall>p. exists_f s2 p \<longleftrightarrow> p \<in> fst ` set regs"
    and only: "\<forall>l. locationToPropertyId s2 l \<noteq> 0 \<longrightarrow> l \<in> snd ` set regs"
    and written: "\<forall>l \<in> snd ` set regs. l \<notin> insert loc P \<longrightarrow> locationToPropertyId s2 l \<noteq> 0"
    by (simp_all add: alloc_inv_def)
  from alloc_inv_ids[OF inv mem] have nz: "pid \<noteq> 0"
    by auto
  from mem have loc: "loc \<in> snd ` set regs"
    by force
  have st: "propertyIdCounter ?s' = propertyIdCounter s2"
    "locationToPropertyId ?s' = (locationToPropertyId s2)(loc := pid)"
    "\<And>p. exists_f ?s' p = exists_f s2 p"
    by (simp_all add: register_finish_def exists_f_def)
  have 4: "\<forall>l. locationToPropertyId ?s' l \<noteq> 0 \<longrightarrow> l \<in> snd ` set regs"
    using only loc by (simp add: st)
  have 5: "\<forall>l \<in> snd ` set regs. l \<notin> P \<longrightarrow> locationToPropertyId ?s' l \<noteq> 0"
    using written nz by (simp add: st)
  from cnt ids tokens 4 5 show ?thesis
    unfolding alloc_inv_def by (simp add: st)
qed

text \<open>The invariant is kept by any list of calls, whatever the receivers they reach do,
  as long as the counter does not wrap.\<close>

lemma alloc_inv_nested:
  "alloc_inv s regs P \<Longrightarrow> length regs + callCount calls < 2 ^ 256 \<Longrightarrow>
   alloc_inv (snd (nestedCalls t calls s)) (regs @ nestedRegistrations t calls s) P \<and>
   length (nestedRegistrations t calls s) \<le> callCount calls"
proof (induction "callCount calls" arbitrary: calls s regs P rule: less_induct)
  case less
  show ?case
  proof (cases calls)
    case Nil
    with less.prems show ?thesis by simp
  next
    case (Cons x rest)
    obtain a c r where x: "x = (a, c, r)" by (cases x)
    obtain nested ok where r: "r = Reaction nested ok" by (cases r)
    note calls = Cons[unfolded x r]
    let ?e = "callEnv a t (Reaction nested ok)"
    have small: "callCount nested < callCount calls" "callCount rest < callCount calls"
      by (simp_all add: calls)
    from less.prems(2) have bound: "length regs + Suc (callCount nested + callCount rest) < 2 ^ 256"
      by (simp add: calls)
    show ?thesis
    proof (cases "execute ?e c s")
      case (Inl err)
      from less.hyps[OF small(2) less.prems(1)] bound
      have "alloc_inv (snd (nestedCalls t rest s)) (regs @ nestedRegistrations t rest s) P \<and>
          length (nestedRegistrations t rest s) \<le> callCount rest"
        by simp
      with Inl show ?thesis
        by (simp add: calls nestedCalls_Cons)
    next
      case (Inr res)
      obtain evs s1 where res: "res = (evs, s1)" by (cases res)
      note ex = Inr[unfolded res]
      let ?own = "registered ?e c s @
          (case hookState c s of None \<Rightarrow> [] | Some m \<Rightarrow> nestedRegistrations t nested m)"
      have step: "alloc_inv s1 (regs @ ?own) P \<and> length ?own \<le> Suc (callCount nested)"
        using execute_Inr_cases[OF ex]
      proof (elim disjE exE conjE)
        fix ow loc coords ar val ptype dh uri evs0 s2
        assume c: "c = RegisterProperty ow loc coords ar val ptype dh uri" and ow: "ow \<noteq> 0"
          and hs: "hookState c s = Some (minted_state ow s)"
          and hook: "onERC721Received ?e ow (propertyIdCounter s + 1) (minted_state ow s) =
                Some (evs0, s2)"
          and reg: "registered ?e c s = [(propertyIdCounter s + 1, loc)]"
          and s1: "s1 = register_finish ?e ow loc coords ar val ptype dh uri
                (propertyIdCounter s + 1) s2"
        from hook have s2: "s2 = snd (nestedCalls t nested (minted_state ow s))"
          by (auto split: if_splits)
        have m: "alloc_inv (minted_state ow s) (regs @ [(propertyIdCounter s + 1, loc)])
            (insert loc P)"
          using alloc_inv_minted[OF less.prems(1) _ ow] bound by simp
        from less.hyps[OF small(1) m] bound
        have n: "alloc_inv s2 ((regs @ [(propertyIdCounter s + 1, loc)]) @
              nestedRegistrations t nested (minted_state ow s)) (insert loc P)"
          and l: "length (nestedRegistrations t nested (minted_state ow s)) \<le> callCount nested"
          by (simp_all add: s2)
        from alloc_inv_finish[OF n, of "propertyIdCounter s + 1" ?e ow coords ar val ptype dh uri]
        have "alloc_inv s1 ((regs @ [(propertyIdCounter s + 1, loc)]) @
              nestedRegistrations t nested (minted_state ow s)) P"
          by (simp add: s1)
        with l show ?thesis
          by (simp add: reg hs)
      next
        fix src dst tokenId m
        assume hs: "hookState c s = Some m" and same: "same_ledger s m"
          and hook: "onERC721Received ?e dst tokenId m = Some (evs, s1)"
          and reg: "registered ?e c s = []"
        from hook have s1: "s1 = snd (nestedCalls t nested m)"
          by (auto split: if_splits)
        from less.hyps[OF small(1) alloc_inv_same[OF less.prems(1) same]] bound
        show ?thesis
          by (simp add: reg hs s1)
      next
        assume "hookState c s = None" "registered ?e c s = []" "same_ledger s s1"
        with alloc_inv_same[OF less.prems(1)] show ?thesis
          by simp
      qed
      then have inv1: "alloc_inv s1 (regs @ ?own) P" and len1: "length ?own \<le> Suc (callCount nested)"
        by simp_all
      from len1 bound have "length (regs @ ?own) + callCount rest < 2 ^ 256"
        by simp
      from less.hyps[OF small(2) inv1 this]
      have "alloc_inv (snd (nestedCalls t rest s1)) ((regs @ ?own) @ nestedRegistrations t rest s1) P"
        and "length (nestedRegistrations t rest s1) \<le> callCount rest"
        by simp_all
      with len1 ex show ?thesis
        by (simp add: calls nestedCalls_Cons case_prod_beta)
    qed
  qed
qed

lemma alloc_inv_run:
  "alloc_inv s regs {} \<Longrightarrow> length regs + callCount (map snd txs) < 2 ^ 256 \<Longrightarrow>
   alloc_inv (run (map compile txs) s) (regs @ registrations txs s) {}"
proof (induction txs arbitrary: s regs)
  case Nil
  then show ?case by simp
next
  case (Cons tx txs)
  obtain t a c r where tx: "tx = (t, a, c, r)" by (cases tx)
  obtain nested ok where r: "r = Reaction nested ok" by (cases r)
  from Cons.prems(2) have bound: "length regs + Suc (callCount nested + callCount (map snd txs)) < 2 ^ 256"
    by (simp add: tx r)
  then have "length regs + callCount [(a, c, r)] < 2 ^ 256"
    by (simp add: r)
  from alloc_inv_nested[OF Cons.prems(1) this, of t]
  have step: "alloc_inv (transact (callEnv a t r) c s) (regs @ nestedRegistrations t [(a, c, r)] s) {}"
    and len: "length (nestedRegistrations t [(a, c, r)] s) \<le> Suc (callCount nested)"
    by (simp_all add: transact_single r)
  from len bound have "length (regs @ nestedRegistrations t [(a, c, r)] s) +
      callCount (map snd txs) < 2 ^ 256"
    by simp
  from Cons.IH[OF step this] show ?case
    by (simp add: tx)
qed

lemma alloc_inv_reachable:
  assumes "callCount (map snd txs) < 2 ^ 256"
  shows "alloc_inv (run (map compile txs) (constructor deployer))
           (registrations txs (constructor deployer)) {}"
  using alloc_inv_run[OF alloc_inv_constructor, of txs deployer] assms by simp

text \<open>The registrations listed for a run are those its event log records: every
  registration that succeeds emits its event, and no other call emits one.\<close>

lemma eventRegistrations_append [simp]:
  "eventRegistrations (xs @ ys) = eventRegistrations xs @ eventRegistrations ys"
  by (simp add: eventRegistrations_def)

lemma nested_events:
  "mset (eventRegistrations (fst (nestedCalls t calls s))) = mset (nestedRegistrations t calls s)"
proof (induction "callCount calls" arbitrary: calls s rule: less_induct)
  case less
  show ?case
  proof (cases calls)
    case Nil
    then show ?thesis by (simp add: eventRegistrations_def)
  next
    case (Cons x rest)
    obtain a c r where x: "x = (a, c, r)" by (cases x)
    obtain nested ok where r: "r = Reaction nested ok" by (cases r)
    note calls = Cons[unfolded x r]
    let ?e = "callEnv a t (Reaction nested ok)"
    have small: "callCount nested < callCount calls" "callCount rest < callCount calls"
      by (simp_all add: calls)
    show ?thesis
    proof (cases "execute ?e c s")
      case (Inl err)
      with less.hyps[OF small(2), of s] show ?thesis
        by (simp add: calls nestedCalls_Cons)
    next
      case (Inr res)
      obtain evs s1 where res: "res = (evs, s1)" by (cases res)
      note ex = Inr[unfolded res]
      let ?own = "registered ?e c s @
          (case hookState c s of None \<Rightarrow> [] | Some m \<Rightarrow> nestedRegistrations t nested m)"
      have own: "mset (eventRegistrations evs) = mset ?own"
        using execute_Inr_cases[OF ex]
      proof (elim disjE exE conjE)
        fix ow loc coords ar val ptype dh uri evs0 s2
        assume hs: "hookState c s = Some (minted_state ow s)"
          and hook: "onERC721Received ?e ow (propertyIdCounter s + 1) (minted_state ow s) =
                Some (evs0, s2)"
          and reg: "registered ?e c s = [(propertyIdCounter s + 1, loc)]"
          and evs: "evs = evs0 @ [PropertyRegistered (propertyIdCounter s + 1) ow loc val (sender ?e)]"
        from hook have "evs0 = fst (nestedCalls t nested (minted_state ow s))"
          by (auto split: if_splits)
        with less.hyps[OF small(1), of "minted_state ow s"] show ?thesis
          by (simp add: evs reg hs eventRegistrations_def)
      next
        fix src dst tokenId m
        assume hs: "hookState c s = Some m"
          and hook: "onERC721Received ?e dst tokenId m = Some (evs, s1)"
          and reg: "registered ?e c s = []"
        from hook have "evs = fst (nestedCalls t nested m)"
          by (auto split: if_splits)
        with less.hyps[OF small(1), of m] show ?thesis
          by (simp add: reg hs)
      next
        assume "hookState c s = None" "registered ?e c s = []" "eventRegistrations evs = []"
        then show ?thesis by simp
      qed
      from less.hyps[OF small(2), of s1] own ex show ?thesis
        by (simp add: calls nestedCalls_Cons case_prod_beta)
    qed
  qed
qed

lemma run_events: "mset (eventRegistrations (runLog txs s)) = mset (registrations txs s)"
proof (induction txs arbitrary: s)
  case Nil
  show ?case by (simp add: eventRegistrations_def)
next
  case (Cons tx txs)
  obtain t a c r where tx: "tx = (t, a, c, r)" by (cases tx)
  have "(case execute (callEnv a t r) c s of Inl err \<Rightarrow> [] | Inr (evs, s') \<Rightarrow> evs) =
      fst (nestedCalls t [(a, c, r)] s)"
    by (simp add: nestedCalls_Cons split: sum.splits)
  with nested_events[of t "[(a, c, r)]" s] Cons[of "transact (callEnv a t r) c s"]
  show ?case
    by (simp add: tx del: nestedRegistrations.simps nestedCalls.simps)
qed

lemma demoScript_compiled: "map compile demoScript = demoTrace"
  by (simp add: demoScript_def demoTrace_def txEnv_callEnv)

lemma demo_registrations: "registrations demoScript (constructor 1) = [(1, ''Lot 7'')]"
  by (simp add: demoScript_def transact_def grantRole_def
      constructor_def hasRole_def getRoleAdmin_def registerProperty_def safeMint_def mint_def
      exists_f_def beforeTokenTransfer_def setTokenURI_def)

lemma reentrant_registrations:
  "registrations reentrantScript (constructor 1) = [(1, ''Lot 7''), (2, ''Lot 7'')]"
  by (simp add: reentrantScript_def transact_def grantRole_def
      constructor_def hasRole_def getRoleAdmin_def registerProperty_def safeMint_def mint_def
      exists_f_def beforeTokenTransfer_def setTokenURI_def)

lemma scripts_short:
  "callCount (map snd demoScript) < 2 ^ 256" "callCount (map snd reentrantScript) < 2 ^ 256"
  by (simp_all add: demoScript_def reentrantScript_def)

subsection \<open>Ids, counter and location index\<close>

text \<open>
  C10. In the storage reached from deployment by any run of fewer than \<open>2 ^ 256\<close> calls,
  those made by receivers inside their hooks included: the ids of the successful
  registrations, in the order in which they were taken from the counter, are 1, 2, 3,
  ...; \<open>getTotalProperties\<close> is the number of successful registrations;
  \<open>getPropertyIdByLocation\<close> is 0 exactly at the locations that were never registered;
  the existing property ids are exactly the registered ones, and 0 is not among them.
\<close>

theorem ids_counter_and_location_index:
  assumes "callCount (map snd txs) < 2 ^ 256"
    and "s = run (map compile txs) (constructor deployer)"
    and "regs = registrations txs (constructor deployer)"
  shows "map (\<lambda>r. unat (fst r)) regs = [1..<Suc (length regs)] \<and>
         unat (getTotalProperties s) = length regs \<and>
         (\<forall>loc. getPropertyIdByLocation s loc = 0 \<longleftrightarrow> loc \<notin> snd ` set regs) \<and>
         (\<forall>pid. exists_f s pid \<longleftrightarrow> pid \<in> fst ` set regs) \<and>
         \<not> exists_f s 0"
proof -
  have inv: "alloc_inv s regs {}"
    using alloc_inv_reachable[OF assms(1), of deployer] assms(2,3) by simp
  then have cnt: "unat (propertyIdCounter s) = length regs"
    and ids: "map (\<lambda>r. unat (fst r)) regs = [1..<Suc (length regs)]"
    and tokens: "\<forall>p. exists_f s p \<longleftrightarrow> p \<in> fst ` set regs"
    and only: "\<forall>l. locationToPropertyId s l \<noteq> 0 \<longrightarrow> l \<in> snd ` set regs"
    and written: "\<forall>l \<in> snd ` set regs. locationToPropertyId s l \<noteq> 0"
    by (simp_all add: alloc_inv_def)
  have nonzero: "fst r \<noteq> 0" if "r \<in> set regs" for r
    using alloc_inv_ids[OF inv that] by auto
  have sentinel: "getPropertyIdByLocation s loc = 0 \<longleftrightarrow> loc \<notin> snd ` set regs" for loc
    using only written by (auto simp add: getPropertyIdByLocation_def)
  have zero: "\<not> exists_f s 0"
    using tokens nonzero by auto
  from ids cnt sentinel tokens zero show ?thesis
    by (simp add: getTotalProperties_def)
qed

theorem ids_counter_and_location_index_witness:
  "unat (getTotalProperties (run demoTrace (constructor 1))) = 1 \<and>
   getPropertyIdByLocation (run demoTrace (constructor 1)) ''Lot 7'' \<noteq> 0 \<and>
   getPropertyIdByLocation (run demoTrace (constructor 1)) ''Lot 8'' = 0 \<and>
   exists_f (run demoTrace (constructor 1)) 1 \<and>
   \<not> exists_f (run demoTrace (constructor 1)) 0 \<and>
   unat (getTotalProperties (run (map compile reentrantScript) (constructor 1))) = 2 \<and>
   getPropertyIdByLocation (run (map compile reentrantScript) (constructor 1)) ''Lot 7'' \<noteq> 0 \<and>
   getPropertyIdByLocation (run (map compile reentrantScript) (constructor 1)) ''Lot 8'' = 0 \<and>
   exists_f (run (map compile reentrantScript) (constructor 1)) 2 \<and>
   \<not> exists_f (run (map compile reentrantScript) (constructor 1)) 0"
  using ids_counter_and_location_index[OF scripts_short(1) refl refl, of 1]
    ids_counter_and_location_index[OF scripts_short(2) refl refl, of 1]
  by (simp add: demo_registrations reentrant_registrations demoScript_compiled)

subsection \<open>Runs in which no receiver calls back\<close>

lemma registered_cases_quiet:
  fixes a t ok
  defines "e \<equiv> callEnv a t (Reaction [] ok)"
  shows "(registered e c s = [] \<and> (\<forall>evs s1. execute e c s = Inr (evs, s1) \<longrightarrow> same_ledger s s1)) \<or>
   (\<exists>ow loc coords ar val ptype dh uri.
      c = RegisterProperty ow loc coords ar val ptype dh uri \<and>
      register_checks e ow loc ar s \<and>
      registered e c s = [(propertyIdCounter s + 1, loc)] \<and>
      transact e c s = registered_state e ow loc coords ar val ptype dh uri s)"
proof (cases "execute e c s")
  case (Inl err)
  then have "registered e c s = []"
    by (cases c) (auto split: sum.splits)
  with Inl show ?thesis by simp
next
  case (Inr res)
  obtain evs s1 where res: "res = (evs, s1)" by (cases res)
  note ex = Inr[unfolded res]
  from execute_Inr_cases[OF ex] show ?thesis
  proof (elim disjE exE conjE)
    fix ow loc coords ar val ptype dh uri evs0 s2
    assume c: "c = RegisterProperty ow loc coords ar val ptype dh uri"
      and hook: "onERC721Received e ow (propertyIdCounter s + 1) (minted_state ow s) =
            Some (evs0, s2)"
      and reg: "registered e c s = [(propertyIdCounter s + 1, loc)]"
      and s1: "s1 = register_finish e ow loc coords ar val ptype dh uri
            (propertyIdCounter s + 1) s2"
    from hook have "s2 = minted_state ow s"
      by (auto simp add: e_def split: if_splits)
    moreover from ex c have "register_checks e ow loc ar s"
      by (auto simp add: registerProperty_Inr_iff split: sum.splits)
    ultimately show ?thesis
      using c reg s1 ex by (simp add: transact_def registered_state_def)
  next
    fix src dst tokenId m
    assume "same_ledger s m" "onERC721Received e dst tokenId m = Some (evs, s1)"
      "registered e c s = []"
    then show ?thesis
      using ex by (auto simp add: e_def split: if_splits)
  next
    assume "registered e c s = []" "same_ledger s s1"
    then show ?thesis
      using ex by simp
  qed
qed

lemma transact_same_ledger_quiet:
  "registered (callEnv a t (Reaction [] ok)) c s = [] \<Longrightarrow>
   same_ledger s (transact (callEnv a t (Reaction [] ok)) c s)"
  using registered_cases_quiet[of a t ok c s]
  by (cases "execute (callEnv a t (Reaction [] ok)) c s")
     (auto simp add: transact_def same_ledger_refl)

lemma nestedRegistrations_quiet:
  "nestedRegistrations t [(a, c, Reaction [] ok)] s = registered (callEnv a t (Reaction [] ok)) c s"
proof (cases "execute (callEnv a t (Reaction [] ok)) c s")
  case (Inl err)
  then have "registered (callEnv a t (Reaction [] ok)) c s = []"
    by (cases c) (auto split: sum.splits)
  with Inl show ?thesis by simp
next
  case (Inr res)
  then show ?thesis
    by (simp split: prod.splits option.splits)
qed

lemma ledger_inv_same:
  "ledger_inv s regs \<Longrightarrow> same_ledger s s' \<Longrightarrow> ledger_inv s' regs"
  by (simp add: ledger_inv_def same_ledger_def)

lemma ledger_inv_constructor: "ledger_inv (constructor deployer) []"
  by (simp add: ledger_inv_def constructor_def exists_f_def)

lemma ledger_inv_ids:
  assumes "ledger_inv s regs" and "r \<in> set regs"
  shows "1 \<le> unat (fst r) \<and> unat (fst r) \<le> length regs"
proof -
  from assms(2) have "unat (fst r) \<in> set (map (\<lambda>r. unat (fst r)) regs)"
    by (simp add: image_iff) blast
  also from assms(1) have "map (\<lambda>r. unat (fst r)) regs = [1..<Suc (length regs)]"
    by (simp add: ledger_inv_def)
  finally show ?thesis by auto
qed

lemma ledger_inv_register:
  assumes inv: "ledger_inv s regs"
    and bound: "Suc (length regs) < 2 ^ 256"
    and ok: "register_checks e ow loc ar s"
  shows "ledger_inv (registered_state e ow loc coords ar val ptype dh uri s)
           (regs @ [(propertyIdCounter s + 1, loc)])"
proof -
  let ?pid = "propertyIdCounter s + 1"
  let ?s' = "registered_state e ow loc coords ar val ptype dh uri s"
  from inv have cnt: "unat (propertyIdCounter s) = length regs"
    and ids: "map (\<lambda>r. unat (fst r)) regs = [1..<Suc (length regs)]"
    and dist: "distinct (map snd regs)"
    and nonempty: "[] \<notin> snd ` set regs"
    and index: "list_all (\<lambda>r. locationToPropertyId s (snd r) = fst r \<and>
                    location (properties s (fst r)) = snd r) regs"
    and free: "\<forall>l. l \<notin> snd ` set regs \<longrightarrow> locationToPropertyId s l = 0"
    and tokens: "\<forall>p. exists_f s p \<longleftrightarrow> p \<in> fst ` set regs"
    by (simp_all add: ledger_inv_def)
  from ok have ow: "ow \<noteq> 0" and loc: "loc \<noteq> []" and unused: "locationToPropertyId s loc = 0"
    by (simp_all add: register_checks_def)
  have upid: "unat ?pid = Suc (length regs)"
    using unat_counter_succ[of "propertyIdCounter s"] bound cnt by simp
  have old_ids: "fst r \<noteq> ?pid \<and> fst r \<noteq> 0" if "r \<in> set regs" for r
  proof -
    from ledger_inv_ids[OF inv that] have "1 \<le> unat (fst r)" "unat (fst r) \<le> length regs"
      by simp_all
    with upid show ?thesis by auto
  qed
  have fresh_loc: "loc \<notin> snd ` set regs"
  proof
    assume "loc \<in> snd ` set regs"
    then obtain r where r: "r \<in> set regs" "snd r = loc" by auto
    with index have "locationToPropertyId s loc = fst r"
      by (auto simp add: list_all_iff)
    with unused old_ids[OF r(1)] show False by simp
  qed
  have st: "propertyIdCounter ?s' = ?pid"
    "locationToPropertyId ?s' = (locationToPropertyId s)(loc := ?pid)"
    "\<And>p. exists_f ?s' p \<longleftrightarrow> p = ?pid \<or> exists_f s p"
    "location (properties ?s' ?pid) = loc"
    "\<And>p. p \<noteq> ?pid \<Longrightarrow> properties ?s' p = properties s p"
    using ow
    by (simp_all add: registered_state_def register_finish_def minted_state_def Let_def
        exists_f_def)
  have 1: "unat (propertyIdCounter ?s') = length (regs @ [(?pid, loc)])"
    using upid by (simp add: st)
  have 2: "map (\<lambda>r. unat (fst r)) (regs @ [(?pid, loc)]) = [1..<Suc (length (regs @ [(?pid, loc)]))]"
    using ids upid by simp
  have 3: "distinct (map snd (regs @ [(?pid, loc)]))"
    using dist fresh_loc by simp
  have 4: "[] \<notin> snd ` set (regs @ [(?pid, loc)])"
    using nonempty loc by auto
  have 5: "list_all (\<lambda>r. locationToPropertyId ?s' (snd r) = fst r \<and>
                    location (properties ?s' (fst r)) = snd r) (regs @ [(?pid, loc)])"
  proof -
    have "locationToPropertyId ?s' (snd r) = fst r \<and> location (properties ?s' (fst r)) = snd r"
      if r: "r \<in> set regs" for r
    proof -
      from r fresh_loc have "snd r \<noteq> loc" by auto
      moreover from index r have "locationToPropertyId s (snd r) = fst r"
        "location (properties s (fst r)) = snd r"
        by (auto simp add: list_all_iff)
      ultimately show ?thesis
        using old_ids[OF r] by (simp add: st)
    qed
    then show ?thesis
      by (simp add: list_all_iff st)
  qed
  have 6: "\<forall>l. l \<notin> snd ` set (regs @ [(?pid, loc)]) \<longrightarrow> locationToPropertyId ?s' l = 0"
    using free by (simp add: st)
  have 7: "\<forall>p. exists_f ?s' p \<longleftrightarrow> p \<in> fst ` set (regs @ [(?pid, loc)])"
    using tokens by (auto simp add: st)
  from 1 2 3 4 5 6 7 show ?thesis
    unfolding ledger_inv_def by blast
qed

lemma ledger_inv_transact:
  assumes "ledger_inv s regs" and "Suc (length regs) < 2 ^ 256"
  shows "ledger_inv (transact (callEnv a t (Reaction [] ok)) c s)
           (regs @ registered (callEnv a t (Reaction [] ok)) c s)"
  using registered_cases_quiet[of a t ok c s]
proof (elim disjE exE conjE)
  assume "registered (callEnv a t (Reaction [] ok)) c s = []"
  with assms(1) show ?thesis
    using ledger_inv_same[OF _ transact_same_ledger_quiet] by simp
next
  fix ow loc coords ar val ptype dh uri
  assume "register_checks (callEnv a t (Reaction [] ok)) ow loc ar s"
    "registered (callEnv a t (Reaction [] ok)) c s = [(propertyIdCounter s + 1, loc)]"
    "transact (callEnv a t (Reaction [] ok)) c s =
       registered_state (callEnv a t (Reaction [] ok)) ow loc coords ar val ptype dh uri s"
  then show ?thesis
    using ledger_inv_register[OF assms] by simp
qed

lemma length_registered_quiet: "length (registered (callEnv a t (Reaction [] ok)) c s) \<le> 1"
  using registered_cases_quiet[of a t ok c s] by auto

lemma ledger_inv_run:
  "ledger_inv s regs \<Longrightarrow> list_all (\<lambda>tx. quiet (snd (snd (snd tx)))) txs \<Longrightarrow>
   length regs + length txs < 2 ^ 256 \<Longrightarrow>
   ledger_inv (run (map compile txs) s) (regs @ registrations txs s)"
proof (induction txs arbitrary: s regs)
  case Nil
  then show ?case by simp
next
  case (Cons tx txs)
  obtain t a c r where tx: "tx = (t, a, c, r)" by (cases tx)
  obtain nested ok where r: "r = Reaction nested ok" by (cases r)
  from Cons.prems(2) have q: "nested = []" and rest: "list_all (\<lambda>tx. quiet (snd (snd (snd tx)))) txs"
    by (simp_all add: tx r)
  let ?e = "callEnv a t (Reaction [] ok)"
  from Cons.prems have step: "ledger_inv (transact ?e c s) (regs @ registered ?e c s)"
    by (intro ledger_inv_transact) simp_all
  have "length (regs @ registered ?e c s) + length txs < 2 ^ 256"
    using Cons.prems(3) length_registered_quiet[of a t ok c s] by simp
  from Cons.IH[OF step rest this] show ?case
    by (simp add: tx r q nestedRegistrations_quiet del: nestedRegistrations.simps)
qed

lemma ledger_inv_reachable:
  assumes "list_all (\<lambda>tx. quiet (snd (snd (snd tx)))) txs" and "length txs < 2 ^ 256"
  shows "ledger_inv (run (map compile txs) (constructor deployer))
           (registrations txs (constructor deployer))"
  using ledger_inv_run[OF ledger_inv_constructor assms(1), of deployer] assms(2) by simp

text \<open>
  In a run of fewer than \<open>2 ^ 256\<close> transactions in which no receiver calls into the
  registry, the locations of the successful registrations are pairwise distinct, no two
  existing property ids carry the same location, and a further \<open>registerProperty\<close> at a
  location that was registered reverts; when the checks before it pass, the revert is
  the one of the uniqueness check.
\<close>

lemma one_property_per_location_quiet:
  assumes "list_all (\<lambda>tx. quiet (snd (snd (snd tx)))) txs"
    and "length txs < 2 ^ 256"
    and "s = run (map compile txs) (constructor deployer)"
    and "regs = registrations txs (constructor deployer)"
  shows "distinct (map snd regs) \<and>
         (\<forall>p q. exists_f s p \<and> exists_f s q \<and>
                 location (properties s p) = location (properties s q) \<longrightarrow> p = q) \<and>
         (\<forall>r \<in> set regs.
            isl (registerProperty e ow (snd r) coords ar val ptype dh uri s) \<and>
            (hasRole s NOTARY_ROLE (sender e) \<and> \<not> paused s \<and> ow \<noteq> 0 \<and> 0 < ar \<longrightarrow>
               registerProperty e ow (snd r) coords ar val ptype dh uri s = Inl LocationTaken))"
proof -
  have inv: "ledger_inv s regs"
    using ledger_inv_reachable[OF assms(1,2), of deployer] assms(3,4) by simp
  then have dist: "distinct (map snd regs)"
    and nonempty: "[] \<notin> snd ` set regs"
    and index: "list_all (\<lambda>r. locationToPropertyId s (snd r) = fst r \<and>
                    location (properties s (fst r)) = snd r) regs"
    and tokens: "\<forall>p. exists_f s p \<longleftrightarrow> p \<in> fst ` set regs"
    by (simp_all add: ledger_inv_def)
  have unique: "p = q"
    if "exists_f s p" "exists_f s q" "location (properties s p) = location (properties s q)"
    for p q
  proof -
    from that(1,2) tokens obtain r r' where
      r: "r \<in> set regs" "fst r = p" and r': "r' \<in> set regs" "fst r' = q"
      by auto
    with index have "location (properties s p) = snd r" "location (properties s q) = snd r'"
      by (auto simp add: list_all_iff)
    with that(3) have "snd r = snd r'" by simp
    with dist r(1) r'(1) have "r = r'"
      by (simp add: distinct_map inj_on_def)
    with r(2) r'(2) show ?thesis by simp
  qed
  have again: "isl (registerProperty e ow (snd r) coords ar val ptype dh uri s) \<and>
      (hasRole s NOTARY_ROLE (sender e) \<and> \<not> paused s \<and> ow \<noteq> 0 \<and> 0 < ar \<longrightarrow>
         registerProperty e ow (snd r) coords ar val ptype dh uri s = Inl LocationTaken)"
    if r: "r \<in> set regs" for r
  proof -
    from index r have "locationToPropertyId s (snd r) = fst r"
      by (auto simp add: list_all_iff)
    moreover from ledger_inv_ids[OF inv r] have "fst r \<noteq> 0"
      by auto
    ultimately have taken: "locationToPropertyId s (snd r) \<noteq> 0"
      by simp
    from r nonempty have "snd r \<noteq> []"
      by (metis imageI)
    with taken show ?thesis
      by (simp add: registerProperty_def)
  qed
  from dist unique again show ?thesis by blast
qed

subsection \<open>What a transfer does, and when the index stays in step\<close>

lemma transferProperty_effect:
  assumes "transferProperty e pid newOwner newValue s = Inr (evs, s')"
  shows "ownerOf s pid = Inr (owners s pid) \<and>
         ownerOf s' pid = Inr newOwner \<and>
         mset (getPropertiesByOwner s' (owners s pid)) =
           mset (getPropertiesByOwner s (owners s pid)) - {#pid#} \<and>
         getPropertiesByOwner s' newOwner = getPropertiesByOwner s newOwner @ [pid] \<and>
         value_f (properties s' pid) = newValue \<and>
         lastTransferDate (properties s' pid) = timestamp e \<and>
         status (properties s' pid) = ACTIVE \<and>
         evs = [PropertyTransferred pid (owners s pid) newOwner newValue]"
proof -
  from assms have ok: "transfer_ok e pid newOwner s"
    and evs: "evs = [PropertyTransferred pid (owners s pid) newOwner newValue]"
    and s': "s' = transferred_state e pid newOwner newValue s"
    by (simp_all add: transferProperty_Inr_iff)
  from ok have ne: "owners s pid \<noteq> 0" "newOwner \<noteq> 0" "owners s pid \<noteq> newOwner"
    by (simp_all add: transfer_ok_def exists_f_def)
  have "mset (removeLoop 0 (ownerProperties s (owners s pid)) pid) =
      mset (ownerProperties s (owners s pid)) - {#pid#}"
    by (rule removeLoop_mset) simp_all
  with ne evs show ?thesis
    by (simp add: s' transferred_state_def Let_def ownerOf_def getPropertiesByOwner_def)
qed

lemma index_inv_constructor: "index_inv (constructor deployer)"
  by (simp add: index_inv_def constructor_def)

lemma index_inv_register:
  assumes inv: "index_inv s" and ok: "register_checks e ow loc ar s"
  shows "index_inv (registered_state e ow loc coords ar val ptype dh uri s)"
proof -
  let ?pid = "propertyIdCounter s + 1"
  from ok have ow: "ow \<noteq> 0" and new: "owners s ?pid = 0"
    by (simp_all add: register_checks_def exists_f_def)
  from inv new have absent: "?pid \<notin> set (ownerProperties s a)" for a
    by (auto simp add: index_inv_def)
  from inv have d: "distinct (ownerProperties s a)"
    and m: "pid \<in> set (ownerProperties s a) \<longleftrightarrow> owners s pid = a \<and> a \<noteq> 0" for a pid
    by (simp_all add: index_inv_def)
  show ?thesis
    unfolding index_inv_def registered_state_def register_finish_def minted_state_def Let_def
    using ow new absent d m by auto
qed

lemma index_inv_transfer:
  assumes inv: "index_inv s" and ok: "transfer_ok e pid newOwner s"
  shows "index_inv (transferred_state e pid newOwner newValue s) \<and>
         pid \<notin> set (ownerProperties (transferred_state e pid newOwner newValue s) (owners s pid))"
proof -
  let ?cur = "owners s pid"
  from ok have ne: "?cur \<noteq> 0" "newOwner \<noteq> 0" "?cur \<noteq> newOwner"
    by (simp_all add: transfer_ok_def exists_f_def)
  from inv have d: "distinct (ownerProperties s a)"
    and m: "q \<in> set (ownerProperties s a) \<longleftrightarrow> owners s q = a \<and> a \<noteq> 0" for a q
    by (simp_all add: index_inv_def)
  from removeLoop_distinct[OF d[of ?cur], of pid]
  have r: "distinct (removeLoop 0 (ownerProperties s ?cur) pid)"
    "set (removeLoop 0 (ownerProperties s ?cur) pid) = set (ownerProperties s ?cur) - {pid}"
    by simp_all
  from m[of pid newOwner] ne have absent: "pid \<notin> set (ownerProperties s newOwner)"
    by auto
  have "index_inv (transferred_state e pid newOwner newValue s)"
    unfolding index_inv_def transferred_state_def Let_def
    using ne r absent d m by auto
  moreover have "pid \<notin> set (ownerProperties (transferred_state e pid newOwner newValue s) ?cur)"
    using ne r by (simp add: transferred_state_def Let_def)
  ultimately show ?thesis by simp
qed

lemma index_inv_transact:
  assumes inv: "index_inv s" and c: "\<not> token_transfer c"
  shows "index_inv (transact (callEnv a t (Reaction [] ok)) c s)"
proof -
  let ?e = "callEnv a t (Reaction [] ok)"
  show ?thesis
  proof (cases c)
    case (RegisterProperty ow loc coords ar val ptype dh uri)
    from registered_cases_quiet[of a t ok c s] show ?thesis
    proof (elim disjE exE conjE)
      assume "registered ?e c s = []"
      then have "isl (registerProperty ?e ow loc coords ar val ptype dh uri s)"
        by (auto simp add: RegisterProperty split: sum.splits)
      with inv show ?thesis
        by (auto simp add: RegisterProperty transact_def split: sum.splits)
    next
      fix ow' loc' coords' ar' val' ptype' dh' uri'
      assume "register_checks ?e ow' loc' ar' s"
        "transact ?e c s = registered_state ?e ow' loc' coords' ar' val' ptype' dh' uri' s"
      with index_inv_register[OF inv] show ?thesis
        by simp
    qed
  next
    case (TransferProperty pid newOwner newValue)
    show ?thesis
    proof (cases "transfer_ok ?e pid newOwner s")
      case True
      from index_inv_transfer[OF inv True] show ?thesis
        by (simp add: TransferProperty transact_def transferProperty_ok[OF True])
    next
      case False
      from transferProperty_fail[OF False, of newValue] inv show ?thesis
        by (auto simp add: TransferProperty transact_def split: sum.splits)
    qed
  next
    case (VerifyProperty pid v)
    with inv show ?thesis
      by (simp add: transact_def verifyProperty_def index_inv_def)
  next
    case (ChangePropertyStatus pid st)
    with inv show ?thesis
      by (simp add: transact_def changePropertyStatus_def index_inv_def Let_def)
  next
    case (UpdatePropertyValue pid nv)
    with inv show ?thesis
      by (simp add: transact_def updatePropertyValue_def index_inv_def Let_def)
  next
    case Pause
    with inv show ?thesis
      by (simp add: transact_def pause_def index_inv_def)
  next
    case Unpause
    with inv show ?thesis
      by (simp add: transact_def unpause_def index_inv_def)
  next
    case (GrantRole r b)
    with inv show ?thesis
      by (simp add: transact_def grantRole_def index_inv_def)
  next
    case (RevokeRole r b)
    with inv show ?thesis
      by (simp add: transact_def revokeRole_def index_inv_def)
  next
    case (RenounceRole r b)
    with inv show ?thesis
      by (simp add: transact_def renounceRole_def index_inv_def)
  next
    case (Approve spender tokenId)
    with inv show ?thesis
      by (simp add: transact_def approve_def index_inv_def split: sum.splits)
  next
    case (SetApprovalForAll operator approved)
    with inv show ?thesis
      by (simp add: transact_def setApprovalForAll_def index_inv_def)
  next
    case (TransferFrom src dst tokenId)
    with c show ?thesis by simp
  next
    case (SafeTransferFrom src dst tokenId)
    with c show ?thesis by simp
  qed
qed

lemma index_inv_run:
  "index_inv s \<Longrightarrow>
   list_all (\<lambda>tx. quiet (snd (snd (snd tx))) \<and> \<not> token_transfer (fst (snd (snd tx)))) txs \<Longrightarrow>
   index_inv (run (map compile txs) s)"
proof (induction txs arbitrary: s)
  case Nil
  then show ?case by simp
next
  case (Cons tx txs)
  obtain t a c r where tx: "tx = (t, a, c, r)" by (cases tx)
  obtain nested ok where r: "r = Reaction nested ok" by (cases r)
  from Cons.prems(2) have q: "nested = []" "\<not> token_transfer c"
    by (simp_all add: tx r)
  from index_inv_transact[OF Cons.prems(1) q(2), of a t ok]
  have "index_inv (transact (callEnv a t r) c s)"
    by (simp add: r q)
  with Cons show ?case by (simp add: tx)
qed

text \<open>In a storage reached without the two inherited token transfers and without a
  receiver that calls back, a successful \<open>transferProperty\<close> leaves the list of the
  previous owner without the id.\<close>

lemma transferProperty_in_step:
  assumes "list_all (\<lambda>tx. quiet (snd (snd (snd tx))) \<and> \<not> token_transfer (fst (snd (snd tx)))) txs"
    and "s = run (map compile txs) (constructor deployer)"
    and "transferProperty e pid newOwner newValue s = Inr (evs, s')"
  shows "pid \<notin> set (getPropertiesByOwner s' (owners s pid)) \<and>
         pid \<in> set (getPropertiesByOwner s' newOwner)"
proof -
  have inv: "index_inv s"
    using index_inv_run[OF index_inv_constructor assms(1), of deployer] assms(2) by simp
  from assms(3) have ok: "transfer_ok e pid newOwner s"
    and s': "s' = transferred_state e pid newOwner newValue s"
    by (simp_all add: transferProperty_Inr_iff)
  from index_inv_transfer[OF inv ok, of newValue] transferProperty_effect[OF assms(3)]
  show ?thesis
    by (simp add: s' getPropertiesByOwner_def)
qed

section \<open>Properties of the API client\<close>

text \<open>
  C9. A response with status 401 goes to the rejection handler, which removes
  \<open>auth_token\<close> from the local storage and returns the rejected error; a response with
  any other status leaves the browser state, and so the stored token, as it was. The same
  holds of the rejection handler on any error: it removes the token when the error
  carries a response with status 401, and changes nothing otherwise.
\<close>

theorem interceptor_clears_token_on_401:
  "(status_r r = 401 \<longrightarrow>
      localStorage (fst (receive r b)) ''auth_token'' = None \<and>
      snd (receive r b) = Inl \<lparr>response = Some r\<rparr>) \<and>
   (status_r r \<noteq> 401 \<longrightarrow> fst (receive r b) = b) \<and>
   (response err = Some r \<and> status_r r = 401 \<longrightarrow>
      localStorage (fst (onRejected err b)) ''auth_token'' = None \<and>
      snd (onRejected err b) = err) \<and>
   (\<not> (\<exists>r'. response err = Some r' \<and> status_r r' = 401) \<longrightarrow> onRejected err b = (b, err))"
  by (auto simp add: receive_def onRejected_def onFulfilled_def removeItem_def
      split: option.splits)

theorem interceptor_clears_token_on_401_witness:
  "localStorage (fst (receive \<lparr>status_r = 401\<rparr>
      \<lparr>localStorage = [''auth_token'' \<mapsto> ''abc''], href = ''/properties''\<rparr>)) ''auth_token'' = None \<and>
   fst (receive \<lparr>status_r = 500\<rparr>
      \<lparr>localStorage = [''auth_token'' \<mapsto> ''abc''], href = ''/properties''\<rparr>) =
     \<lparr>localStorage = [''auth_token'' \<mapsto> ''abc''], href = ''/properties''\<rparr> \<and>
   localStorage (fst (onRejected \<lparr>response = Some \<lparr>status_r = 401\<rparr>\<rparr>
      \<lparr>localStorage = [''auth_token'' \<mapsto> ''abc''], href = ''/properties''\<rparr>)) ''auth_token'' = None \<and>
   onRejected \<lparr>response = None\<rparr>
      \<lparr>localStorage = [''auth_token'' \<mapsto> ''abc''], href = ''/properties''\<rparr> =
     (\<lparr>localStorage = [''auth_token'' \<mapsto> ''abc''], href = ''/properties''\<rparr>, \<lparr>response = None\<rparr>)"
  using
    interceptor_clears_token_on_401[of "\<lparr>status_r = 401\<rparr>"
      "\<lparr>localStorage = [''auth_token'' \<mapsto> ''abc''], href = ''/properties''\<rparr>"
      "\<lparr>response = Some \<lparr>status_r = 401\<rparr>\<rparr>"]
    interceptor_clears_token_on_401[of "\<lparr>status_r = 500\<rparr>"
      "\<lparr>localStorage = [''auth_token'' \<mapsto> ''abc''], href = ''/properties''\<rparr>"
      "\<lparr>response = None\<rparr>"]
  by simp

end
